theory Spec2Isabelle
  imports Main "HOL-Library.Monad_Syntax" "HOL-Library.Char_ord" "HOL-Library.List_Lexorder"
begin

section \<open>Text\<close>

text \<open>
  Text is modelled as \<^typ>\<open>string\<close>: a list of code units below 256. All character
  classes of the parser's patterns (\<^verbatim>\<open>\d\<close>, \<^verbatim>\<open>\w\<close>, literals) are ASCII; white space
  (\<^verbatim>\<open>\s\<close>, \<^verbatim>\<open>trim\<close>) is tab, line feed, vertical tab, form feed, carriage return,
  space and the no-break space.
\<close>

definition is_digit :: "char \<Rightarrow> bool" where
  "is_digit c = (c \<in> set ''0123456789'')"

definition upper_letters :: string where
  "upper_letters = ''ABCDEFGHIJKLMNOPQRSTUVWXYZ''"

definition lower_letters :: string where
  "lower_letters = ''abcdefghijklmnopqrstuvwxyz''"

definition is_word :: "char \<Rightarrow> bool" where
  "is_word c = (c \<in> set upper_letters \<or> c \<in> set lower_letters \<or> is_digit c \<or> c = CHR ''_'')"

definition is_space :: "char \<Rightarrow> bool" where
  "is_space c = (c \<in> set [CHR 0x09, CHR 0x0A, CHR 0x0B, CHR 0x0C, CHR 0x0D, CHR 0x20, CHR 0xA0])"

definition not_space :: "char \<Rightarrow> bool" where
  "not_space c = (\<not> is_space c)"

text \<open>\<^verbatim>\<open>String.prototype.trim\<close>.\<close>

definition trim :: "string \<Rightarrow> string" where
  "trim s = rev (dropWhile is_space (rev (dropWhile is_space s)))"

text \<open>\<^verbatim>\<open>content.split('\n')\<close>: the pieces between line feeds; never the empty list.\<close>

fun split_lines :: "string \<Rightarrow> string list" where
  "split_lines [] = [[]]"
| "split_lines (c # cs) =
     (if c = CHR 0x0A then [] # split_lines cs
      else (case split_lines cs of
              [] \<Rightarrow> [[c]]
            | l # ls \<Rightarrow> (c # l) # ls))"

text \<open>
  The canonical form of a character under the \<^verbatim>\<open>i\<close> flag: its upper-case letter.
  Only ASCII letters have a different canonical form that is ASCII, and every pattern of
  the bot table is ASCII.
\<close>

definition canonicalize :: "char \<Rightarrow> char" where
  "canonicalize c =
     (case map_of
        [(CHR ''a'', CHR ''A''), (CHR ''b'', CHR ''B''), (CHR ''c'', CHR ''C''),
         (CHR ''d'', CHR ''D''), (CHR ''e'', CHR ''E''), (CHR ''f'', CHR ''F''),
         (CHR ''g'', CHR ''G''), (CHR ''h'', CHR ''H''), (CHR ''i'', CHR ''I''),
         (CHR ''j'', CHR ''J''), (CHR ''k'', CHR ''K''), (CHR ''l'', CHR ''L''),
         (CHR ''m'', CHR ''M''), (CHR ''n'', CHR ''N''), (CHR ''o'', CHR ''O''),
         (CHR ''p'', CHR ''P''), (CHR ''q'', CHR ''Q''), (CHR ''r'', CHR ''R''),
         (CHR ''s'', CHR ''S''), (CHR ''t'', CHR ''T''), (CHR ''u'', CHR ''U''),
         (CHR ''v'', CHR ''V''), (CHR ''w'', CHR ''W''), (CHR ''x'', CHR ''X''),
         (CHR ''y'', CHR ''Y''), (CHR ''z'', CHR ''Z'')] c of
        Some u \<Rightarrow> u
      | None \<Rightarrow> c)"

text \<open>
  \<^verbatim>\<open>/pat/i.test(s)\<close> for a pattern of literal characters: the pattern matches at some
  position of the text, characters compared by their canonical forms.
\<close>

fun starts_with :: "string \<Rightarrow> string \<Rightarrow> bool" where
  "starts_with [] s = True"
| "starts_with (p # ps) [] = False"
| "starts_with (p # ps) (c # cs) = (if p = c then starts_with ps cs else False)"

fun search :: "string \<Rightarrow> string \<Rightarrow> bool" where
  "search pat [] = starts_with pat []"
| "search pat (c # cs) = (if starts_with pat (c # cs) then True else search pat cs)"

definition test_ci :: "string \<Rightarrow> string \<Rightarrow> bool" where
  "test_ci pat s = search (map canonicalize pat) (map canonicalize s)"

section \<open>Bot classifier\<close>

definition botPatterns :: "string list" where
  "botPatterns =
    [''bot'', ''crawler'', ''spider'', ''scraper'', ''googlebot'', ''bingbot'', ''slurp'',
     ''duckduckbot'', ''baiduspider'', ''yandexbot'', ''facebookexternalhit'', ''twitterbot'',
     ''linkedinbot'', ''whatsapp'', ''telegrambot'', ''curl'', ''wget'', ''python-requests'',
     ''go-http-client'', ''java'', ''apache-httpclient'', ''okhttp'', ''postman'', ''zapier'',
     ''monitor'', ''check'', ''test'', ''scan'', ''probe'', ''lighthouse'', ''pagespeed'',
     ''gtmetrix'', ''pingdom'', ''uptimerobot'', ''newrelic'']"

definition isBot :: "string \<Rightarrow> bool" where
  "isBot userAgent = list_ex (\<lambda>pattern. test_ci pattern userAgent) botPatterns"

text \<open>The patterns of the bot table in canonical form.\<close>

definition canonical_patterns :: "string list" where
  "canonical_patterns =
    [''BOT'', ''CRAWLER'', ''SPIDER'', ''SCRAPER'', ''GOOGLEBOT'', ''BINGBOT'', ''SLURP'',
     ''DUCKDUCKBOT'', ''BAIDUSPIDER'', ''YANDEXBOT'', ''FACEBOOKEXTERNALHIT'',
     ''TWITTERBOT'', ''LINKEDINBOT'', ''WHATSAPP'', ''TELEGRAMBOT'', ''CURL'', ''WGET'',
     ''PYTHON-REQUESTS'', ''GO-HTTP-CLIENT'', ''JAVA'', ''APACHE-HTTPCLIENT'', ''OKHTTP'',
     ''POSTMAN'', ''ZAPIER'', ''MONITOR'', ''CHECK'', ''TEST'', ''SCAN'', ''PROBE'',
     ''LIGHTHOUSE'', ''PAGESPEED'', ''GTMETRIX'', ''PINGDOM'', ''UPTIMEROBOT'',
     ''NEWRELIC'']"

text \<open>The user agent of a desktop browser.\<close>

definition browser_ua :: string where
  "browser_ua = ''Mozilla/5.0 (Macintosh; Intel Mac OS X 10_15_7) AppleWebKit/537.36 (KHTML, like Gecko) Chrome/139.0.0.0 Safari/537.36''"

section \<open>Pattern matching with backtracking\<close>

text \<open>
  A pattern is a function from the rest of the text to the result of the first successful
  match, in the order a backtracking matcher tries them; the continuation \<open>k\<close> is the rest
  of the pattern. A greedy repetition tries the longest run first and gives characters
  back one by one.
\<close>

definition lit :: "string \<Rightarrow> (string \<Rightarrow> 'a option) \<Rightarrow> string \<Rightarrow> 'a option" where
  "lit p k s = (if take (length p) s = p then k (drop (length p) s) else None)"

fun greedy :: "(char \<Rightarrow> bool) \<Rightarrow> (string \<Rightarrow> string \<Rightarrow> 'a option) \<Rightarrow> string \<Rightarrow> string \<Rightarrow> 'a option" where
  "greedy P k acc [] = k acc []"
| "greedy P k acc (c # cs) =
     (if P c
      then (case greedy P k (acc @ [c]) cs of
              Some r \<Rightarrow> Some r
            | None \<Rightarrow> k acc (c # cs))
      else k acc (c # cs))"

definition star :: "(char \<Rightarrow> bool) \<Rightarrow> (string \<Rightarrow> string \<Rightarrow> 'a option) \<Rightarrow> string \<Rightarrow> 'a option" where
  "star P k s = greedy P k [] s"

definition plus :: "(char \<Rightarrow> bool) \<Rightarrow> (string \<Rightarrow> string \<Rightarrow> 'a option) \<Rightarrow> string \<Rightarrow> 'a option" where
  "plus P k s = greedy P (\<lambda>m rest. if m = [] then None else k m rest) [] s"

definition exactly :: "nat \<Rightarrow> (char \<Rightarrow> bool) \<Rightarrow> (string \<Rightarrow> string \<Rightarrow> 'a option) \<Rightarrow> string \<Rightarrow> 'a option" where
  "exactly n P k s =
     (if n \<le> length s \<and> list_all P (take n s) then k (take n s) (drop n s) else None)"

definition at_end :: "'a option \<Rightarrow> string \<Rightarrow> 'a option" where
  "at_end r s = (if s = [] then r else None)"

text \<open>A pattern without \<^verbatim>\<open>^\<close> is tried at every start position, leftmost first.\<close>

fun find_match :: "(string \<Rightarrow> 'a option) \<Rightarrow> string \<Rightarrow> 'a option" where
  "find_match m [] = m []"
| "find_match m (c # cs) = (case m (c # cs) of Some r \<Rightarrow> Some r | None \<Rightarrow> find_match m cs)"

section \<open>Numbers and dates of the host language\<close>

text \<open>
  Numbers are modelled as \<^typ>\<open>int\<close>, exact below \<open>2 ^ 53\<close>. \<open>parseInt\<close> with radix 10
  skips leading white space, reads an optional sign and the longest run of digits, and
  answers \<open>None\<close> (not a number) when there is no digit.
\<close>

definition digit_value :: "char \<Rightarrow> int" where
  "digit_value c =
     (case map_of
        [(CHR ''0'', 0), (CHR ''1'', 1), (CHR ''2'', 2), (CHR ''3'', 3), (CHR ''4'', 4),
         (CHR ''5'', 5), (CHR ''6'', 6), (CHR ''7'', 7), (CHR ''8'', 8), (CHR ''9'', 9)] c of
        Some v \<Rightarrow> v
      | None \<Rightarrow> 0)"

definition parseInt :: "string \<Rightarrow> int option" where
  "parseInt s =
     (let s1 = dropWhile is_space s;
          sgn = (case s1 of c # cs \<Rightarrow> if c = CHR ''-'' then - 1 else 1 | [] \<Rightarrow> (1::int));
          s2 = (case s1 of c # cs \<Rightarrow> if c = CHR ''-'' \<or> c = CHR ''+'' then cs else s1 | [] \<Rightarrow> []);
          ds = takeWhile is_digit s2
      in if ds = [] then None
         else Some (sgn * foldl (\<lambda>a c. 10 * a + digit_value c) 0 ds))"

text \<open>
  The host's time zone: its offset from UTC in milliseconds, as a function of a UTC
  instant (\<open>tza_utc\<close>) and of a local time (\<open>tza_local\<close>). \<open>fixed_zone c\<close> is a zone
  without daylight saving, \<open>c\<close> milliseconds east of UTC.
\<close>

record timezone =
  tza_utc :: "int \<Rightarrow> int"
  tza_local :: "int \<Rightarrow> int"

definition fixed_zone :: "int \<Rightarrow> timezone" where
  "fixed_zone c = \<lparr>tza_utc = (\<lambda>t. c), tza_local = (\<lambda>t. c)\<rparr>"

definition LocalTime :: "timezone \<Rightarrow> int \<Rightarrow> int" where
  "LocalTime tz t = t + tza_utc tz t"

definition UTC :: "timezone \<Rightarrow> int \<Rightarrow> int" where
  "UTC tz t = t - tza_local tz t"

definition msPerDay :: int where
  "msPerDay = 86400000"

definition DayFromYear :: "int \<Rightarrow> int" where
  "DayFromYear y = 365 * (y - 1970) + (y - 1969) div 4 - (y - 1901) div 100 + (y - 1601) div 400"

definition InLeapYear :: "int \<Rightarrow> bool" where
  "InLeapYear y = (y mod 4 = 0 \<and> (y mod 100 \<noteq> 0 \<or> y mod 400 = 0))"

definition days_before_month :: "bool \<Rightarrow> int \<Rightarrow> int" where
  "days_before_month leap m =
     (if leap then [0, 31, 60, 91, 121, 152, 182, 213, 244, 274, 305, 335] ! nat m
      else [0, 31, 59, 90, 120, 151, 181, 212, 243, 273, 304, 334] ! nat m)"

definition MakeDay :: "int \<Rightarrow> int \<Rightarrow> int \<Rightarrow> int" where
  "MakeDay year month date =
     (let ym = year + month div 12; mn = month mod 12
      in DayFromYear ym + days_before_month (InLeapYear ym) mn + date - 1)"

definition MakeTime :: "int \<Rightarrow> int \<Rightarrow> int \<Rightarrow> int \<Rightarrow> int" where
  "MakeTime hour minute sec ms = hour * 3600000 + minute * 60000 + sec * 1000 + ms"

definition MakeDate :: "int \<Rightarrow> int \<Rightarrow> int" where
  "MakeDate day time = day * msPerDay + time"

text \<open>
  \<^verbatim>\<open>new Date(year, month, day, hour, minute, second).getTime()\<close>: the fields are a local
  time of the host's zone; a year from 0 to 99 means 1900 + year. With a year of at most
  four digits the instant is far inside the range of valid dates.
\<close>

definition new_Date :: "timezone \<Rightarrow> int \<Rightarrow> int \<Rightarrow> int \<Rightarrow> int \<Rightarrow> int \<Rightarrow> int \<Rightarrow> int" where
  "new_Date tz year month day hour minute sec =
     (let yr = (if 0 \<le> year \<and> year \<le> 99 then 1900 + year else year)
      in UTC tz (MakeDate (MakeDay yr month day) (MakeTime hour minute sec 0)))"

text \<open>
  \<^verbatim>\<open>subDays(date, n)\<close> of date-fns: \<^verbatim>\<open>setDate(getDate() - n)\<close>, the same local time of
  day \<open>n\<close> calendar days earlier.
\<close>

definition subDays :: "timezone \<Rightarrow> int \<Rightarrow> int \<Rightarrow> int" where
  "subDays tz t n = UTC tz (LocalTime tz t - n * msPerDay)"

text \<open>The calendar date of a day number (days since 1970-01-01), proleptic Gregorian.\<close>

definition civil_from_days :: "int \<Rightarrow> int \<times> int \<times> int" where
  "civil_from_days z =
     (let z1 = z + 719468;
          era = z1 div 146097;
          doe = z1 mod 146097;
          yoe = (doe - doe div 1460 + doe div 36524 - doe div 146096) div 365;
          doy = doe - (365 * yoe + yoe div 4 - yoe div 100);
          mp = (5 * doy + 2) div 153;
          d = doy - (153 * mp + 2) div 5 + 1;
          m = (if mp < 10 then mp + 3 else mp - 9);
          y = yoe + era * 400 + (if m \<le> 2 then 1 else 0)
      in (y, m, d))"

fun pad :: "nat \<Rightarrow> int \<Rightarrow> string" where
  "pad 0 n = []"
| "pad (Suc w) n = pad w (n div 10) @ [''0123456789'' ! nat (n mod 10)]"

text \<open>\<^verbatim>\<open>date.toISOString().split('T')[0]\<close>: the UTC calendar date.\<close>

definition toISODate :: "int \<Rightarrow> string" where
  "toISODate t =
     (case civil_from_days (t div msPerDay) of
        (y, m, d) \<Rightarrow>
          (if 0 \<le> y \<and> y \<le> 9999 then pad 4 y
           else (if y < 0 then ''-'' else ''+'') @ pad 6 (abs y))
          @ ''-'' @ pad 2 m @ ''-'' @ pad 2 d)"

section \<open>Line parser\<close>

record LogEntry =
  ip :: string
  timestamp :: int
  httpMethod :: string
  url :: string
  protocol :: string
  statusCode :: int
  responseSize :: int
  referrer :: string
  userAgent :: string
  forwardedFor :: "string option"

record log_match =
  m_ip :: string
  m_timestampStr :: string
  m_method :: string
  m_url :: string
  m_protocol :: string
  m_statusCodeStr :: string
  m_responseSizeStr :: string
  m_referrer :: string
  m_userAgent :: string
  m_forwardedFor :: "string option"

definition dquote :: char where
  "dquote = CHR 0x22"

definition not_quote :: "char \<Rightarrow> bool" where
  "not_quote c = (c \<noteq> dquote)"

definition not_bracket :: "char \<Rightarrow> bool" where
  "not_bracket c = (c \<noteq> CHR '']'')"

definition is_sign :: "char \<Rightarrow> bool" where
  "is_sign c = (c = CHR ''+'' \<or> c = CHR ''-'')"

text \<open>The group \<^verbatim>\<open>(\d+|-)\<close>: digits first, a dash second.\<close>

definition size_field :: "(string \<Rightarrow> string \<Rightarrow> 'a option) \<Rightarrow> string \<Rightarrow> 'a option" where
  "size_field k s =
     (case plus is_digit k s of
        Some r \<Rightarrow> Some r
      | None \<Rightarrow> lit ''-'' (k ''-'') s)"

text \<open>The optional group \<^verbatim>\<open>(?:\s+"([^"]*)")?\<close>: taken when it matches.\<close>

definition forwarded_field :: "(string option \<Rightarrow> string \<Rightarrow> 'a option) \<Rightarrow> string \<Rightarrow> 'a option" where
  "forwarded_field k s =
     (case plus is_space (\<lambda>ws. lit [dquote] (star not_quote (\<lambda>ff. lit [dquote] (k (Some ff))))) s of
        Some r \<Rightarrow> Some r
      | None \<Rightarrow> k None s)"

definition NGINX_LOG_REGEX :: "string \<Rightarrow> log_match option" where
  "NGINX_LOG_REGEX =
     plus not_space (\<lambda>ip. lit '' '' (
     plus not_space (\<lambda>ident. lit '' '' (
     plus not_space (\<lambda>user. lit '' ['' (
     plus not_bracket (\<lambda>timestampStr. lit [CHR '']'', CHR '' '', dquote] (
     plus not_space (\<lambda>meth. lit '' '' (
     star not_quote (\<lambda>url. lit '' '' (
     plus not_space (\<lambda>protocol. lit [dquote, CHR '' ''] (
     plus is_digit (\<lambda>statusCodeStr. lit '' '' (
     size_field (\<lambda>responseSizeStr. lit [CHR '' '', dquote] (
     star not_quote (\<lambda>referrer. lit [dquote, CHR '' '', dquote] (
     star not_quote (\<lambda>userAgent. lit [dquote] (
     forwarded_field (\<lambda>forwardedFor rest.
       Some \<lparr>m_ip = ip, m_timestampStr = timestampStr, m_method = meth, m_url = url,
             m_protocol = protocol, m_statusCodeStr = statusCodeStr,
             m_responseSizeStr = responseSizeStr, m_referrer = referrer,
             m_userAgent = userAgent, m_forwardedFor = forwardedFor\<rparr>
     )))))))))))))))))))))))"

definition timestampRegex :: "string \<Rightarrow> (string \<times> string \<times> string \<times> string \<times> string \<times> string \<times> string) option" where
  "timestampRegex =
     exactly 2 is_digit (\<lambda>day. lit ''/'' (
     exactly 3 is_word (\<lambda>monthStr. lit ''/'' (
     exactly 4 is_digit (\<lambda>year. lit '':'' (
     exactly 2 is_digit (\<lambda>hour. lit '':'' (
     exactly 2 is_digit (\<lambda>minute. lit '':'' (
     exactly 2 is_digit (\<lambda>second. lit '' '' (
     exactly 1 is_sign (\<lambda>sg.
     exactly 4 is_digit (\<lambda>ds.
     at_end (Some (day, monthStr, year, hour, minute, second, sg @ ds))))))))))))))))"

definition timezoneRegex :: "string \<Rightarrow> (string \<times> string \<times> string) option" where
  "timezoneRegex =
     find_match (
       exactly 1 is_sign (\<lambda>sign.
       exactly 2 is_digit (\<lambda>offsetHours.
       exactly 2 is_digit (\<lambda>offsetMinutes rest. Some (sign, offsetHours, offsetMinutes)))))"

definition months :: "string \<Rightarrow> int option" where
  "months =
     map_of [(''Jan'', 0), (''Feb'', 1), (''Mar'', 2), (''Apr'', 3), (''May'', 4), (''Jun'', 5),
             (''Jul'', 6), (''Aug'', 7), (''Sep'', 8), (''Oct'', 9), (''Nov'', 10), (''Dec'', 11)]"

text \<open>
  The result is the instant in milliseconds since the epoch, \<open>None\<close> for \<^verbatim>\<open>null\<close>. The
  numeric fields are runs of digits, for which \<open>parseInt\<close> always answers a number.
\<close>

definition parseNginxTimestamp :: "timezone \<Rightarrow> string \<Rightarrow> int option" where
  "parseNginxTimestamp tz timestampStr =
     (case timestampRegex timestampStr of
        None \<Rightarrow> None
      | Some (day, monthStr, year, hour, minute, second, timezone) \<Rightarrow>
          (case months monthStr of
             None \<Rightarrow> None
           | Some month \<Rightarrow>
               (case timezoneRegex timezone of
                  None \<Rightarrow> None
                | Some (sign, offsetHours, offsetMinutes) \<Rightarrow>
                    do {
                      oh \<leftarrow> parseInt offsetHours;
                      om \<leftarrow> parseInt offsetMinutes;
                      y \<leftarrow> parseInt year;
                      d \<leftarrow> parseInt day;
                      h \<leftarrow> parseInt hour;
                      mi \<leftarrow> parseInt minute;
                      s \<leftarrow> parseInt second;
                      let offsetMilliseconds =
                            ((oh * 60 + om) * 60 * 1000) * (if sign = ''+'' then - 1 else 1);
                      let date = new_Date tz y month d h mi s;
                      Some (date + offsetMilliseconds)
                    })))"

definition parseLogLine :: "timezone \<Rightarrow> string \<Rightarrow> LogEntry option" where
  "parseLogLine tz line =
     (let trimmedLine = trim line
      in if trimmedLine = [] then None
         else (case NGINX_LOG_REGEX trimmedLine of
                 None \<Rightarrow> None
               | Some m \<Rightarrow>
                   (case parseNginxTimestamp tz (m_timestampStr m) of
                      None \<Rightarrow> None
                    | Some ts \<Rightarrow>
                        (case (parseInt (m_statusCodeStr m),
                               if m_responseSizeStr m = ''-'' then Some 0
                               else parseInt (m_responseSizeStr m)) of
                           (Some sc, Some rs) \<Rightarrow>
                             Some \<lparr>ip = m_ip m, timestamp = ts, httpMethod = m_method m,
                                   url = m_url m, protocol = m_protocol m, statusCode = sc,
                                   responseSize = rs,
                                   referrer = (if m_referrer m = ''-'' then [] else m_referrer m),
                                   userAgent = m_userAgent m,
                                   forwardedFor =
                                     (case m_forwardedFor m of
                                        None \<Rightarrow> None
                                      | Some ff \<Rightarrow> if ff = [] then None else Some ff)\<rparr>
                         | _ \<Rightarrow> None))))"

fun parse_lines :: "timezone \<Rightarrow> string list \<Rightarrow> LogEntry list" where
  "parse_lines tz [] = []"
| "parse_lines tz (line # lines) =
     (if trim line = [] then parse_lines tz lines
      else (case parseLogLine tz line of
              Some entry \<Rightarrow> entry # parse_lines tz lines
            | None \<Rightarrow> parse_lines tz lines))"

definition parseLogFile :: "timezone \<Rightarrow> string \<Rightarrow> LogEntry list" where
  "parseLogFile tz content = parse_lines tz (split_lines content)"

section \<open>Storage\<close>

text \<open>
  The three tables with their rows in insertion order, and the two counters behind the
  \<^verbatim>\<open>AUTOINCREMENT\<close> keys (the largest key ever handed out). Columns that share a name
  with a field of \<^typ>\<open>LogEntry\<close> carry the prefix \<open>col_\<close>.
\<close>

record host_row =
  host_row_id :: int
  hostname :: string
  created_at :: int
  updated_at :: int

record entry_row =
  entry_row_id :: int
  host_id :: int
  col_ip :: string
  col_timestamp :: int
  col_method :: string
  col_url :: string
  col_protocol :: string
  status_code :: int
  response_size :: int
  col_referrer :: string
  user_agent :: string
  forwarded_for :: "string option"
  is_bot :: int
  date_only :: string

record file_metadata_row =
  file_path :: string
  fm_hostname :: string
  last_modified :: int
  file_size :: int
  processed_at :: int

record database =
  hosts :: "host_row list"
  log_entries :: "entry_row list"
  file_metadata :: "file_metadata_row list"
  hosts_seq :: int
  log_entries_seq :: int

datatype load_error = InputNotFound | InvalidHost | EmptyResult | StorageFailure

definition initializeDatabase :: database where
  "initializeDatabase =
     \<lparr>hosts = [], log_entries = [], file_metadata = [], hosts_seq = 0, log_entries_seq = 0\<rparr>"

text \<open>\<open>now\<close> is the reading of the clock, \<^verbatim>\<open>Date.now()\<close>.\<close>

definition getOrCreateHost :: "int \<Rightarrow> string \<Rightarrow> database \<Rightarrow> int \<times> database" where
  "getOrCreateHost now name db =
     (case filter (\<lambda>h. hostname h = name) (hosts db) of
        existingHost # others \<Rightarrow>
          (host_row_id existingHost,
           db\<lparr>hosts :=
                map (\<lambda>h. if host_row_id h = host_row_id existingHost
                          then h\<lparr>updated_at := now\<rparr> else h)
                    (hosts db)\<rparr>)
      | [] \<Rightarrow>
          (hosts_seq db + 1,
           db\<lparr>hosts := hosts db @
                  [\<lparr>host_row_id = hosts_seq db + 1, hostname = name,
                    created_at = now, updated_at = now\<rparr>],
              hosts_seq := hosts_seq db + 1\<rparr>))"

text \<open>One \<^verbatim>\<open>stmt.run\<close> of the insert statement.\<close>

definition make_row :: "int \<Rightarrow> int \<Rightarrow> LogEntry \<Rightarrow> entry_row" where
  "make_row rowid hostId entry =
     \<lparr>entry_row_id = rowid, host_id = hostId, col_ip = ip entry,
      col_timestamp = timestamp entry, col_method = httpMethod entry, col_url = url entry,
      col_protocol = protocol entry, status_code = statusCode entry,
      response_size = responseSize entry, col_referrer = referrer entry,
      user_agent = userAgent entry,
      forwarded_for =
        (case forwardedFor entry of None \<Rightarrow> None | Some ff \<Rightarrow> if ff = [] then None else Some ff),
      is_bot = (if isBot (userAgent entry) then 1 else 0),
      date_only = toISODate (timestamp entry)\<rparr>"

definition insert_row :: "int \<Rightarrow> LogEntry \<Rightarrow> database \<Rightarrow> database" where
  "insert_row hostId entry db =
     db\<lparr>log_entries := log_entries db @ [make_row (log_entries_seq db + 1) hostId entry],
        log_entries_seq := log_entries_seq db + 1\<rparr>"

definition insertLogEntry :: "int \<Rightarrow> LogEntry \<Rightarrow> string \<Rightarrow> database \<Rightarrow> database" where
  "insertLogEntry now entry name db =
     (case getOrCreateHost now name db of (hostId, db1) \<Rightarrow> insert_row hostId entry db1)"

text \<open>
  The loop inside the transaction. A failure of the storage engine is an input of the
  model: \<open>fault = Some k\<close> makes the \<open>k\<close>-th \<^verbatim>\<open>stmt.run\<close> (counted from 0) raise.
\<close>

fun run_inserts :: "nat option \<Rightarrow> nat \<Rightarrow> int \<Rightarrow> LogEntry list \<Rightarrow> database \<Rightarrow> load_error + database" where
  "run_inserts fault i hostId [] db = Inr db"
| "run_inserts fault i hostId (entry # entries) db =
     (if fault = Some i then Inl StorageFailure
      else run_inserts fault (Suc i) hostId entries (insert_row hostId entry db))"

text \<open>
  \<^verbatim>\<open>db.transaction(fn)\<close>: the body runs between \<^verbatim>\<open>BEGIN\<close> and \<^verbatim>\<open>COMMIT\<close>; when it raises,
  the store is rolled back to its state at \<^verbatim>\<open>BEGIN\<close> and the exception goes on to the
  caller.
\<close>

definition transaction :: "(database \<Rightarrow> load_error + database) \<Rightarrow> database \<Rightarrow> (load_error + unit) \<times> database" where
  "transaction body db =
     (case body db of
        Inl e \<Rightarrow> (Inl e, db)
      | Inr db' \<Rightarrow> (Inr (), db'))"

definition insertLogEntries :: "nat option \<Rightarrow> int \<Rightarrow> LogEntry list \<Rightarrow> string \<Rightarrow> database \<Rightarrow> (load_error + unit) \<times> database" where
  "insertLogEntries fault now entries name db =
     (case getOrCreateHost now name db of
        (hostId, db1) \<Rightarrow> transaction (run_inserts fault 0 hostId entries) db1)"

definition clearAllData :: "database \<Rightarrow> database" where
  "clearAllData db = db\<lparr>log_entries := [], file_metadata := [], hosts := []\<rparr>"

definition getLogCount :: "database \<Rightarrow> int" where
  "getLogCount db = int (length (log_entries db))"

definition getAllHosts :: "database \<Rightarrow> host_row list" where
  "getAllHosts db = sort_key hostname (hosts db)"

section \<open>Ingestion\<close>

text \<open>
  The file system is a map from paths to the text of the readable files. The result is
  the raised error or \<open>()\<close>, with the store after the call.
\<close>

definition loadLogFile :: "(string \<Rightarrow> string option) \<Rightarrow> timezone \<Rightarrow> nat option \<Rightarrow> int \<Rightarrow> string \<Rightarrow> string \<Rightarrow> database \<Rightarrow> (load_error + unit) \<times> database" where
  "loadLogFile fs tz fault now filePath name db =
     (case fs filePath of
        None \<Rightarrow> (Inl InputNotFound, db)
      | Some content \<Rightarrow>
          if trim name = [] then (Inl InvalidHost, db)
          else (let entries = parseLogFile tz content
                in if entries = [] then (Inl EmptyResult, db)
                   else insertLogEntries fault now entries name db))"

text \<open>The stores the program can build, starting from a fresh database file.\<close>

inductive reachable :: "database \<Rightarrow> bool" where
  reachable_init: "reachable initializeDatabase"
| reachable_host: "reachable db \<Longrightarrow> reachable (snd (getOrCreateHost now name db))"
| reachable_insert: "reachable db \<Longrightarrow> reachable (insertLogEntry now entry name db)"
| reachable_batch: "reachable db \<Longrightarrow> reachable (snd (insertLogEntries fault now entries name db))"
| reachable_clear: "reachable db \<Longrightarrow> reachable (clearAllData db)"

section \<open>Aggregation queries\<close>

text \<open>
  \<^verbatim>\<open>GROUP BY\<close>: one group for each distinct key, with the rows that have it.
  \<^verbatim>\<open>ORDER BY ... DESC\<close>: a stable sort; SQL leaves the order among equal keys open, and
  no property below depends on it. \<^verbatim>\<open>LIMIT n\<close>: the first \<open>n\<close> rows, all rows when \<open>n\<close> is
  negative.
\<close>

definition group_by :: "('r \<Rightarrow> 'k) \<Rightarrow> 'r list \<Rightarrow> ('k \<times> 'r list) list" where
  "group_by key rows = map (\<lambda>k. (k, filter (\<lambda>r. key r = k) rows)) (remdups (map key rows))"

definition order_desc :: "('a \<Rightarrow> int) \<Rightarrow> 'a list \<Rightarrow> 'a list" where
  "order_desc f xs = sort_key (\<lambda>x. - f x) xs"

definition sql_limit :: "int \<Rightarrow> 'a list \<Rightarrow> 'a list" where
  "sql_limit n xs = (if n < 0 then xs else take (nat n) xs)"

text \<open>\<^verbatim>\<open>SUM(CASE WHEN p THEN 1 ELSE 0 END)\<close> and \<^verbatim>\<open>COUNT(DISTINCT CASE WHEN p THEN ip END)\<close>.\<close>

definition count_where :: "('r \<Rightarrow> bool) \<Rightarrow> 'r list \<Rightarrow> int" where
  "count_where p rows = sum_list (map (\<lambda>r. if p r then 1 else 0) rows)"

definition count_distinct_ip :: "(entry_row \<Rightarrow> bool) \<Rightarrow> entry_row list \<Rightarrow> int" where
  "count_distinct_ip p rows = int (length (remdups (map col_ip (filter p rows))))"

record UserAgentStats =
  ua_userAgent :: string
  ua_requests1d :: int
  ua_requests7d :: int
  ua_requests30d :: int
  ua_isBot :: bool

definition getUserAgentStats :: "timezone \<Rightarrow> int \<Rightarrow> int \<Rightarrow> database \<Rightarrow> UserAgentStats list" where
  "getUserAgentStats tz now limit db =
     (let oneDayAgo = subDays tz now 1;
          sevenDaysAgo = subDays tz now 7;
          thirtyDaysAgo = subDays tz now 30
      in sql_limit limit (order_desc ua_requests30d
           (map (\<lambda>(k, g).
                   \<lparr>ua_userAgent = fst k,
                    ua_requests1d = count_where (\<lambda>r. col_timestamp r \<ge> oneDayAgo) g,
                    ua_requests7d = count_where (\<lambda>r. col_timestamp r \<ge> sevenDaysAgo) g,
                    ua_requests30d = count_where (\<lambda>r. col_timestamp r \<ge> thirtyDaysAgo) g,
                    ua_isBot = (snd k \<noteq> 0)\<rparr>)
                (group_by (\<lambda>r. (user_agent r, is_bot r)) (log_entries db)))))"

record PageStats =
  pg_url :: string
  pg_requests1d :: int
  pg_requests7d :: int
  pg_requests30d :: int
  pg_uniqueIPs1d :: int
  pg_uniqueIPs7d :: int
  pg_uniqueIPs30d :: int
  pg_botRequests1d :: int
  pg_botRequests7d :: int
  pg_botRequests30d :: int
  pg_nonBotRequests1d :: int
  pg_nonBotRequests7d :: int
  pg_nonBotRequests30d :: int

definition getPageStats :: "timezone \<Rightarrow> int \<Rightarrow> int \<Rightarrow> database \<Rightarrow> PageStats list" where
  "getPageStats tz now limit db =
     (let oneDayAgo = subDays tz now 1;
          sevenDaysAgo = subDays tz now 7;
          thirtyDaysAgo = subDays tz now 30
      in sql_limit limit (order_desc pg_requests30d
           (map (\<lambda>(k, g).
                   \<lparr>pg_url = k,
                    pg_requests1d = count_where (\<lambda>r. col_timestamp r \<ge> oneDayAgo) g,
                    pg_requests7d = count_where (\<lambda>r. col_timestamp r \<ge> sevenDaysAgo) g,
                    pg_requests30d = count_where (\<lambda>r. col_timestamp r \<ge> thirtyDaysAgo) g,
                    pg_uniqueIPs1d = count_distinct_ip (\<lambda>r. col_timestamp r \<ge> oneDayAgo) g,
                    pg_uniqueIPs7d = count_distinct_ip (\<lambda>r. col_timestamp r \<ge> sevenDaysAgo) g,
                    pg_uniqueIPs30d = count_distinct_ip (\<lambda>r. col_timestamp r \<ge> thirtyDaysAgo) g,
                    pg_botRequests1d =
                      count_where (\<lambda>r. col_timestamp r \<ge> oneDayAgo \<and> is_bot r = 1) g,
                    pg_botRequests7d =
                      count_where (\<lambda>r. col_timestamp r \<ge> sevenDaysAgo \<and> is_bot r = 1) g,
                    pg_botRequests30d =
                      count_where (\<lambda>r. col_timestamp r \<ge> thirtyDaysAgo \<and> is_bot r = 1) g,
                    pg_nonBotRequests1d =
                      count_where (\<lambda>r. col_timestamp r \<ge> oneDayAgo \<and> is_bot r = 0) g,
                    pg_nonBotRequests7d =
                      count_where (\<lambda>r. col_timestamp r \<ge> sevenDaysAgo \<and> is_bot r = 0) g,
                    pg_nonBotRequests30d =
                      count_where (\<lambda>r. col_timestamp r \<ge> thirtyDaysAgo \<and> is_bot r = 0) g\<rparr>)
                (group_by col_url (log_entries db)))))"

record ReferrerStats =
  ref_referrer :: string
  ref_requests1d :: int
  ref_requests7d :: int
  ref_requests30d :: int

definition getReferrerStats :: "timezone \<Rightarrow> int \<Rightarrow> int \<Rightarrow> database \<Rightarrow> ReferrerStats list" where
  "getReferrerStats tz now limit db =
     (let oneDayAgo = subDays tz now 1;
          sevenDaysAgo = subDays tz now 7;
          thirtyDaysAgo = subDays tz now 30
      in sql_limit limit (order_desc ref_requests30d
           (map (\<lambda>(k, g).
                   \<lparr>ref_referrer = k,
                    ref_requests1d = count_where (\<lambda>r. col_timestamp r \<ge> oneDayAgo) g,
                    ref_requests7d = count_where (\<lambda>r. col_timestamp r \<ge> sevenDaysAgo) g,
                    ref_requests30d = count_where (\<lambda>r. col_timestamp r \<ge> thirtyDaysAgo) g\<rparr>)
                (group_by col_referrer
                   (filter (\<lambda>r. col_referrer r \<noteq> [] \<and> col_referrer r \<noteq> ''-'')
                      (log_entries db))))))"

record ErrorStats =
  err_url :: string
  err_statusCode :: int
  err_requests1d :: int
  err_requests7d :: int
  err_requests30d :: int

definition getErrorStats :: "timezone \<Rightarrow> int \<Rightarrow> int \<Rightarrow> database \<Rightarrow> ErrorStats list" where
  "getErrorStats tz now limit db =
     (let oneDayAgo = subDays tz now 1;
          sevenDaysAgo = subDays tz now 7;
          thirtyDaysAgo = subDays tz now 30
      in sql_limit limit (order_desc err_requests30d
           (map (\<lambda>(k, g).
                   \<lparr>err_url = fst k,
                    err_statusCode = snd k,
                    err_requests1d = count_where (\<lambda>r. col_timestamp r \<ge> oneDayAgo) g,
                    err_requests7d = count_where (\<lambda>r. col_timestamp r \<ge> sevenDaysAgo) g,
                    err_requests30d = count_where (\<lambda>r. col_timestamp r \<ge> thirtyDaysAgo) g\<rparr>)
                (group_by (\<lambda>r. (col_url r, status_code r))
                   (filter (\<lambda>r. status_code r \<ge> 400) (log_entries db))))))"

text \<open>
  The rounded means (\<^verbatim>\<open>averageResponseSize\<close>, \<^verbatim>\<open>avgResponseSize\<close>) and the rounded
  percentage \<^verbatim>\<open>botTrafficPercentage\<close> are floating-point values and are left out of the
  result records.
\<close>

record BandwidthStats =
  bw_date :: string
  bw_totalBytes :: int
  bw_totalRequests :: int

definition getBandwidthStats :: "database \<Rightarrow> BandwidthStats list" where
  "getBandwidthStats db =
     sql_limit 30 (rev (sort_key bw_date
       (map (\<lambda>(k, g).
               \<lparr>bw_date = k,
                bw_totalBytes = sum_list (map response_size g),
                bw_totalRequests = int (length g)\<rparr>)
            (group_by date_only (log_entries db)))))"

record TopIPStats =
  ip_ip :: string
  ip_requests1d :: int
  ip_requests7d :: int
  ip_requests30d :: int
  ip_isBot :: bool

definition getTopIPs :: "timezone \<Rightarrow> int \<Rightarrow> int \<Rightarrow> database \<Rightarrow> TopIPStats list" where
  "getTopIPs tz now limit db =
     (let oneDayAgo = subDays tz now 1;
          sevenDaysAgo = subDays tz now 7;
          thirtyDaysAgo = subDays tz now 30
      in sql_limit limit (order_desc ip_requests30d
           (map (\<lambda>(k, g).
                   \<lparr>ip_ip = k,
                    ip_requests1d = count_where (\<lambda>r. col_timestamp r \<ge> oneDayAgo) g,
                    ip_requests7d = count_where (\<lambda>r. col_timestamp r \<ge> sevenDaysAgo) g,
                    ip_requests30d = count_where (\<lambda>r. col_timestamp r \<ge> thirtyDaysAgo) g,
                    ip_isBot =
                      (case map is_bot g of [] \<Rightarrow> False | b # bs \<Rightarrow> fold max bs b \<noteq> 0)\<rparr>)
                (group_by col_ip (log_entries db)))))"

record StatusCodeCount =
  code :: int
  count :: int

record Summary =
  totalRequests :: int
  totalUniqueIPs :: int
  totalBandwidth :: int
  mostActiveDay :: string
  topStatusCodes :: "StatusCodeCount list"

definition calculateSummary :: "database \<Rightarrow> Summary" where
  "calculateSummary db =
     \<lparr>totalRequests = getLogCount db,
      totalUniqueIPs = int (length (remdups (map col_ip (log_entries db)))),
      totalBandwidth = sum_list (map response_size (log_entries db)),
      mostActiveDay =
        (case sql_limit 1 (order_desc snd
                (map (\<lambda>(k, g). (k, int (length g))) (group_by date_only (log_entries db)))) of
           [] \<Rightarrow> ''N/A''
         | r # rs \<Rightarrow> if fst r = [] then ''N/A'' else fst r),
      topStatusCodes =
        sql_limit 10 (order_desc count
          (map (\<lambda>(k, g). \<lparr>code = k, count = int (length g)\<rparr>)
               (group_by status_code (log_entries db))))\<rparr>"

record AnalysisResults =
  userAgents :: "UserAgentStats list"
  pages :: "PageStats list"
  referrers :: "ReferrerStats list"
  errors :: "ErrorStats list"
  bandwidth :: "BandwidthStats list"
  topIPs :: "TopIPStats list"
  summary :: Summary

text \<open>The five limits are the caller's options; each defaults to 50.\<close>

definition analyze :: "timezone \<Rightarrow> int \<Rightarrow> int \<Rightarrow> int \<Rightarrow> int \<Rightarrow> int \<Rightarrow> int \<Rightarrow> database \<Rightarrow> AnalysisResults" where
  "analyze tz now userAgentLimit pageLimit referrerLimit errorLimit ipLimit db =
     \<lparr>userAgents = getUserAgentStats tz now userAgentLimit db,
      pages = getPageStats tz now pageLimit db,
      referrers = getReferrerStats tz now referrerLimit db,
      errors = getErrorStats tz now errorLimit db,
      bandwidth = getBandwidthStats db,
      topIPs = getTopIPs tz now ipLimit db,
      summary = calculateSummary db\<rparr>"

section \<open>Invariants and auxiliary notions\<close>

text \<open>
  The rows that a whole batch appends when the last key handed out was \<open>seq\<close>: the
  entries in their order, with consecutive keys.
\<close>

fun rows_of_batch :: "int \<Rightarrow> int \<Rightarrow> LogEntry list \<Rightarrow> entry_row list" where
  "rows_of_batch seq hostId [] = []"
| "rows_of_batch seq hostId (entry # entries) =
     make_row (seq + 1) hostId entry # rows_of_batch (seq + 1) hostId entries"

text \<open>The store after a complete batch.\<close>

definition batch_done :: "int \<Rightarrow> LogEntry list \<Rightarrow> database \<Rightarrow> database" where
  "batch_done hostId entries db =
     db\<lparr>log_entries := log_entries db @ rows_of_batch (log_entries_seq db) hostId entries,
        log_entries_seq := log_entries_seq db + int (length entries)\<rparr>"

text \<open>
  The entry that a row holds, and an entry as the insert statement stores it: an empty
  forwarded-for chain becomes \<^verbatim>\<open>NULL\<close>.
\<close>

definition stored_entry :: "LogEntry \<Rightarrow> LogEntry" where
  "stored_entry e =
     e\<lparr>forwardedFor :=
         (case forwardedFor e of None \<Rightarrow> None | Some ff \<Rightarrow> if ff = [] then None else Some ff)\<rparr>"

definition entry_of_row :: "entry_row \<Rightarrow> LogEntry" where
  "entry_of_row r =
     \<lparr>ip = col_ip r, timestamp = col_timestamp r, httpMethod = col_method r, url = col_url r,
      protocol = col_protocol r, statusCode = status_code r, responseSize = response_size r,
      referrer = col_referrer r, userAgent = user_agent r, forwardedFor = forwarded_for r\<rparr>"

text \<open>
  The hosts table keeps hostnames and keys unique, and no key exceeds the counter; the
  bot flag of every entry row is the classifier's answer, stored as 0 or 1.
\<close>

definition hosts_ok :: "database \<Rightarrow> bool" where
  "hosts_ok db =
     (distinct (map hostname (hosts db)) \<and> distinct (map host_row_id (hosts db))
      \<and> list_all (\<lambda>h. host_row_id h \<le> hosts_seq db) (hosts db))"

definition bots_ok :: "database \<Rightarrow> bool" where
  "bots_ok db =
     list_all (\<lambda>r. is_bot r = (if isBot (user_agent r) then 1 else 0)) (log_entries db)"

text \<open>The rows of the hosts table for one hostname.\<close>

definition host_rows :: "string \<Rightarrow> database \<Rightarrow> host_row list" where
  "host_rows name db = filter (\<lambda>h. hostname h = name) (hosts db)"

text \<open>The offsets of a time zone are at most a day.\<close>

definition valid_zone :: "timezone \<Rightarrow> bool" where
  "valid_zone tz = (\<forall>t. abs (tza_utc tz t) \<le> msPerDay \<and> abs (tza_local tz t) \<le> msPerDay)"

text \<open>
  The numbers of groups that the limits of the reports are compared with: the distinct
  pairs of user agent and bot flag, the distinct calendar days and the distinct status
  codes of the stored entries.
\<close>

definition user_agent_groups :: "database \<Rightarrow> nat" where
  "user_agent_groups db =
     length (remdups (map (\<lambda>r. (user_agent r, is_bot r)) (log_entries db)))"

definition calendar_days :: "database \<Rightarrow> nat" where
  "calendar_days db = length (remdups (map date_only (log_entries db)))"

definition status_codes :: "database \<Rightarrow> nat" where
  "status_codes db = length (remdups (map status_code (log_entries db)))"

section \<open>Sample data\<close>

text \<open>
  The example line of the access-log format, a file with two copies of it, and a file
  without a line that parses.
\<close>

definition sample_line :: string where
  "sample_line =
     ''172.16.6.142 - - [06/Sep/2025:11:01:23 -0700] '' @ [dquote]
     @ ''GET /js/script.js HTTP/1.1'' @ [dquote] @ '' 200 1650 '' @ [dquote]
     @ ''https://example.com/'' @ [dquote] @ '' '' @ [dquote] @ ''Mozilla/5.0'' @ [dquote]
     @ '' '' @ [dquote] @ ''205.169.39.128'' @ [dquote]"

definition sample_log :: string where
  "sample_log = sample_line @ [CHR 0x0A] @ sample_line @ [CHR 0x0A]"

definition corrupt_log :: string where
  "corrupt_log = ''not a log line'' @ [CHR 0x0A] @ ''   '' @ [CHR 0x0A]"

definition sample_fs :: "string \<Rightarrow> string option" where
  "sample_fs = map_of [(''access.log'', sample_log), (''corrupt.log'', corrupt_log)]"

text \<open>
  A host in UTC, and a host seven hours west of UTC all year (Mountain Standard Time, as
  in Arizona).
\<close>

definition utc_zone :: timezone where
  "utc_zone = fixed_zone 0"

definition mst_zone :: timezone where
  "mst_zone = fixed_zone (- 25200000)"

text \<open>The entry that the sample line parses to on a host in UTC.\<close>

definition sample_parsed :: LogEntry where
  "sample_parsed =
     \<lparr>ip = ''172.16.6.142'', timestamp = 1757181683000, httpMethod = ''GET'',
      url = ''/js/script.js'', protocol = ''HTTP/1.1'', statusCode = 200, responseSize = 1650,
      referrer = ''https://example.com/'', userAgent = ''Mozilla/5.0'',
      forwardedFor = Some ''205.169.39.128''\<rparr>"

text \<open>
  The store after one load of the sample file at the clock reading 1000, and after a
  second load at the clock reading \<open>t\<close>.
\<close>

definition loaded_once :: database where
  "loaded_once =
     snd (loadLogFile sample_fs utc_zone None 1000 ''access.log'' ''example.com''
            initializeDatabase)"

definition loaded_twice :: "int \<Rightarrow> database" where
  "loaded_twice t =
     snd (loadLogFile sample_fs utc_zone None t ''access.log'' ''example.com'' loaded_once)"

text \<open>
  A request for the path \<^verbatim>\<open>/\<close> at a given instant, with a given user agent and status
  code. A store with one such request of a bot and one of a browser at
  \<^verbatim>\<open>2025-09-06T18:01:23Z\<close>; a query time two days after them and one sixty days later; a
  store with one request on each of 31 consecutive days; a store with one request for
  each of eleven status codes.
\<close>

definition sample_entry :: "int \<Rightarrow> string \<Rightarrow> int \<Rightarrow> LogEntry" where
  "sample_entry t ua sc =
     \<lparr>ip = ''172.16.6.142'', timestamp = t, httpMethod = ''GET'', url = ''/'',
      protocol = ''HTTP/1.1'', statusCode = sc, responseSize = 100, referrer = [],
      userAgent = ua, forwardedFor = None\<rparr>"

definition two_agents_db :: database where
  "two_agents_db =
     snd (insertLogEntries None 1000
            [sample_entry 1757181683000 ''Zapier'' 200,
             sample_entry 1757181683000 ''Mozilla/5.0'' 404]
            ''example.com'' initializeDatabase)"

definition sample_now :: int where
  "sample_now = 1757354483000"

definition late_now :: int where
  "late_now = 1762538483000"

definition month_db :: database where
  "month_db =
     snd (insertLogEntries None 1000
            (map (\<lambda>d. sample_entry (1757181683000 + d * 86400000) ''-'' 200) [0..30])
            ''example.com'' initializeDatabase)"

definition codes_db :: database where
  "codes_db =
     snd (insertLogEntries None 1000
            (map (\<lambda>c. sample_entry 1757181683000 ''-'' c)
               [200, 201, 204, 206, 301, 302, 304, 400, 401, 403, 404])
            ''example.com'' initializeDatabase)"

section \<open>Properties of the bot classifier\<close>

text \<open>For evaluation, the user agent is brought to canonical form once.\<close>

lemma canonical_patterns: "map (map canonicalize) botPatterns = canonical_patterns"
  by code_simp

lemma isBot_code [code]:
  "isBot ua = (let u = map canonicalize ua in list_ex (\<lambda>p. search p u) canonical_patterns)"
  by (simp add: isBot_def test_ci_def canonical_patterns [symmetric] list_ex_iff)

lemma search_append_left: "search pat s \<Longrightarrow> search pat (pre @ s)"
  by (induction pre) auto

lemma starts_with_append: "starts_with pat (pat @ post)"
  by (induction pat) auto

lemma search_here: "starts_with pat s \<Longrightarrow> search pat s"
  by (cases s) auto

lemma test_ci_contains:
  assumes "map canonicalize w = map canonicalize pat"
  shows "test_ci pat (pre @ w @ post)"
proof -
  have "search (map canonicalize pat) (map canonicalize pat @ map canonicalize post)"
    by (intro search_here starts_with_append)
  then have "search (map canonicalize pat)
               (map canonicalize pre @ map canonicalize pat @ map canonicalize post)"
    by (rule search_append_left)
  with assms show ?thesis by (simp add: test_ci_def)
qed

lemma isBot_intro: "pat \<in> set botPatterns \<Longrightarrow> test_ci pat s \<Longrightarrow> isBot s"
  by (auto simp: isBot_def list_ex_iff)

lemma bot_in_table: "''bot'' \<in> set botPatterns"
  by (simp add: botPatterns_def)

lemma canonicalize_Bot: "map canonicalize ''Bot'' = map canonicalize ''bot''"
  by code_simp

lemma isBot_contains_Bot: "isBot (pre @ ''Bot'' @ post)"
  using bot_in_table test_ci_contains [OF canonicalize_Bot] by (rule isBot_intro)

lemma isBot_contains_bot: "isBot (pre @ ''bot'' @ post)"
  using bot_in_table test_ci_contains [OF refl] by (rule isBot_intro)

lemma isBot_Zapier: "isBot ''Zapier''"
  by code_simp

lemma isBot_empty: "\<not> isBot []"
  by code_simp

lemma isBot_browser: "\<not> isBot browser_ua"
  by code_simp

lemma browser_has_Mozilla: "test_ci ''Mozilla'' browser_ua"
  by code_simp

text \<open>
  C8. The bot classifier is a function of the user-agent string alone. It answers true
  for \<^verbatim>\<open>Zapier\<close>, for every string that contains \<^verbatim>\<open>AhrefsBot\<close> and for every string that
  contains \<^verbatim>\<open>Amazonbot\<close>; it answers false for a typical browser string that contains
  \<^verbatim>\<open>Mozilla\<close> and no bot token, and false for the empty string.
\<close>

theorem isBot_examples:
  "isBot ''Zapier''
   \<and> isBot (pre @ ''AhrefsBot'' @ post)
   \<and> isBot (pre' @ ''Amazonbot'' @ post')
   \<and> test_ci ''Mozilla'' browser_ua \<and> \<not> isBot browser_ua
   \<and> \<not> isBot []"
proof -
  have "isBot ((pre @ ''Ahrefs'') @ ''Bot'' @ post)" by (rule isBot_contains_Bot)
  then have a: "isBot (pre @ ''AhrefsBot'' @ post)" by simp
  have "isBot ((pre' @ ''Amazon'') @ ''bot'' @ post')" by (rule isBot_contains_bot)
  then have b: "isBot (pre' @ ''Amazonbot'' @ post')" by simp
  from a b browser_has_Mozilla isBot_Zapier isBot_browser isBot_empty show ?thesis by simp
qed

section \<open>Properties of the timestamp normalizer\<close>

text \<open>
  The host's zone enters through the date constructor: in a zone \<open>c\<close> milliseconds east of
  UTC every result is \<open>c\<close> milliseconds earlier than on a host in UTC.
\<close>

lemma new_Date_fixed_zone:
  "new_Date (fixed_zone c) y m d h mi s = new_Date (fixed_zone 0) y m d h mi s - c"
  by (simp add: new_Date_def UTC_def fixed_zone_def Let_def)

lemma parseNginxTimestamp_fixed_zone:
  "parseNginxTimestamp (fixed_zone c) s =
     map_option (\<lambda>t. t - c) (parseNginxTimestamp (fixed_zone 0) s)"
  unfolding parseNginxTimestamp_def
  by (simp add: new_Date_fixed_zone [of c] split: option.splits prod.splits Option.bind_splits)

text \<open>
  C1. The normalizer is to return the UTC instant of the token whatever the zone of the
  host, \<^verbatim>\<open>2025-09-06T18:01:23.000Z\<close> for \<^verbatim>\<open>06/Sep/2025:11:01:23 -0700\<close>. The code reads the
  calendar fields as a local time of the host: on a host in UTC the result is that
  instant, 1757181683000 ms after the epoch; on a host seven hours west of UTC the result
  is 1757206883000, which is \<^verbatim>\<open>2025-09-07T01:01:23.000Z\<close>, on the next calendar day, and
  this is the timestamp of the entry that the line parser returns for the sample line.
\<close>

theorem parseNginxTimestamp_local_zone:
  "parseNginxTimestamp utc_zone ''06/Sep/2025:11:01:23 -0700'' = Some 1757181683000
   \<and> parseNginxTimestamp mst_zone ''06/Sep/2025:11:01:23 -0700'' = Some 1757206883000
   \<and> map_option timestamp (parseLogLine mst_zone sample_line) = Some 1757206883000
   \<and> toISODate 1757181683000 = ''2025-09-06''
   \<and> toISODate 1757206883000 = ''2025-09-07''"
  by code_simp

section \<open>Properties of the ingestion checks\<close>

lemma parseLogLine_blank: "trim line = [] \<Longrightarrow> parseLogLine tz line = None"
  by (simp add: parseLogLine_def)

lemma parse_lines_empty_iff:
  "parse_lines tz ls = [] \<longleftrightarrow> (\<forall>l \<in> set ls. parseLogLine tz l = None)"
  by (induction ls) (auto simp: parseLogLine_blank split: option.splits)

text \<open>
  A file yields no entry exactly when every line is blank or fails to parse; the empty
  file and the files of blank lines are among them.
\<close>

lemma parseLogFile_empty_iff:
  "parseLogFile tz content = [] \<longleftrightarrow>
     (\<forall>l \<in> set (split_lines content). parseLogLine tz l = None)"
  by (simp add: parseLogFile_def parse_lines_empty_iff)

lemma parseLogFile_blank_lines:
  "\<forall>l \<in> set (split_lines content). trim l = [] \<Longrightarrow> parseLogFile tz content = []"
  by (simp add: parseLogFile_empty_iff parseLogLine_blank)

lemma parseLogFile_empty_file: "parseLogFile tz [] = []"
  by (simp add: parseLogFile_def parseLogLine_def trim_def)

text \<open>The sample file holds two copies of the sample line, and both parse.\<close>

lemma parse_sample_log: "parseLogFile utc_zone sample_log = [sample_parsed, sample_parsed]"
  by code_simp

lemma trim_example: "trim ''example.com'' \<noteq> []"
  by code_simp

lemma load_sample:
  "loadLogFile sample_fs utc_zone fault now ''access.log'' ''example.com'' db =
     insertLogEntries fault now [sample_parsed, sample_parsed] ''example.com'' db"
  by (simp add: loadLogFile_def sample_fs_def parse_sample_log trim_example)

text \<open>
  C3, as the code has it. A call of \<open>loadLogFile\<close> with a hostname that is empty or all
  white space fails and leaves the store unchanged. The existence of the file is checked
  first: the failure is the hostname-required condition when the file exists, and the
  file-not-found condition when it does not.
\<close>

theorem loadLogFile_blank_hostname:
  assumes "trim name = []"
  shows "loadLogFile fs tz fault now filePath name db =
           (if fs filePath = None then (Inl InputNotFound, db) else (Inl InvalidHost, db))"
  using assms by (auto simp: loadLogFile_def split: option.splits)

theorem loadLogFile_blank_hostname_witness:
  "trim ''   '' = []
   \<and> loadLogFile sample_fs utc_zone None 1000 ''access.log'' ''   '' initializeDatabase =
       (Inl InvalidHost, initializeDatabase)
   \<and> loadLogFile sample_fs utc_zone None 1000 ''missing.log'' ''   '' initializeDatabase =
       (Inl InputNotFound, initializeDatabase)"
proof -
  have blank: "trim ''   '' = []" by code_simp
  have here: "sample_fs ''access.log'' \<noteq> None" by (simp add: sample_fs_def)
  have missing: "sample_fs ''missing.log'' = None" by (simp add: sample_fs_def)
  show ?thesis
    using blank here missing
      loadLogFile_blank_hostname [OF blank, of sample_fs utc_zone None 1000
        "''access.log''" initializeDatabase]
      loadLogFile_blank_hostname [OF blank, of sample_fs utc_zone None 1000
        "''missing.log''" initializeDatabase]
    by simp
qed

text \<open>
  C3, as the specification states it, fails: with an empty hostname and a path without a file the
  call does not fail with the hostname-required condition.
\<close>

theorem loadLogFile_missing_file_counterexample:
  "trim [] = []
   \<and> fst (loadLogFile sample_fs utc_zone None 1000 ''missing.log'' [] initializeDatabase)
       = Inl InputNotFound
   \<and> fst (loadLogFile sample_fs utc_zone None 1000 ''missing.log'' [] initializeDatabase)
       \<noteq> Inl InvalidHost"
  by (simp add: loadLogFile_def sample_fs_def trim_def)

text \<open>
  C10, as the code has it. When the content of the existing file yields no valid entry
  (an empty file, blank lines only, or no line that parses), \<open>loadLogFile\<close> fails before
  it touches the database, whatever the hostname: the store after the call is the store
  before it, with no host row created or updated and no entry row inserted. The failure
  is the empty-result condition when the hostname is not blank after trimming; the
  hostname is checked before the file is read, so with a blank hostname the failure is the
  hostname-required condition.
\<close>

theorem loadLogFile_no_entries:
  assumes "fs filePath = Some content"
      and "parseLogFile tz content = []"
  shows "loadLogFile fs tz fault now filePath name db =
           (if trim name = [] then (Inl InvalidHost, db) else (Inl EmptyResult, db))"
  using assms by (simp add: loadLogFile_def)

theorem loadLogFile_no_entries_witness:
  "sample_fs ''corrupt.log'' = Some corrupt_log
   \<and> parseLogFile utc_zone corrupt_log = []
   \<and> trim ''example.com'' \<noteq> []
   \<and> loadLogFile sample_fs utc_zone None 1000 ''corrupt.log'' ''example.com'' initializeDatabase
       = (Inl EmptyResult, initializeDatabase)
   \<and> loadLogFile sample_fs utc_zone None 1000 ''corrupt.log'' ''example.com'' two_agents_db
       = (Inl EmptyResult, two_agents_db)"
proof -
  have f: "sample_fs ''corrupt.log'' = Some corrupt_log" by (simp add: sample_fs_def)
  have p: "parseLogFile utc_zone corrupt_log = []" by code_simp
  note n = trim_example
  from f p n
    loadLogFile_no_entries [where fs = sample_fs and filePath = "''corrupt.log''"
      and content = corrupt_log and name = "''example.com''" and tz = utc_zone
      and fault = None and now = 1000 and db = initializeDatabase]
    loadLogFile_no_entries [where fs = sample_fs and filePath = "''corrupt.log''"
      and content = corrupt_log and name = "''example.com''" and tz = utc_zone
      and fault = None and now = 1000 and db = two_agents_db]
  show ?thesis by simp
qed

text \<open>
  C10, as the specification states it, fails: for the file without a line that parses and
  a hostname of three spaces the call fails with the hostname-required condition, not
  with the empty-result condition.
\<close>

theorem loadLogFile_no_entries_blank_hostname_counterexample:
  "sample_fs ''corrupt.log'' = Some corrupt_log
   \<and> parseLogFile utc_zone corrupt_log = []
   \<and> fst (loadLogFile sample_fs utc_zone None 1000 ''corrupt.log'' ''   '' initializeDatabase)
       = Inl InvalidHost
   \<and> fst (loadLogFile sample_fs utc_zone None 1000 ''corrupt.log'' ''   '' initializeDatabase)
       \<noteq> Inl EmptyResult"
proof -
  have f: "sample_fs ''corrupt.log'' = Some corrupt_log" by (simp add: sample_fs_def)
  have p: "parseLogFile utc_zone corrupt_log = []" by code_simp
  have blank: "trim ''   '' = []" by code_simp
  from f p blank show ?thesis by (simp add: loadLogFile_def)
qed

section \<open>Properties of the bulk insert\<close>

lemma getOrCreateHost_entries:
  "log_entries (snd (getOrCreateHost now name db)) = log_entries db"
  "log_entries_seq (snd (getOrCreateHost now name db)) = log_entries_seq db"
  "file_metadata (snd (getOrCreateHost now name db)) = file_metadata db"
  by (auto simp: getOrCreateHost_def split: list.splits)

lemma batch_done_Nil: "batch_done hostId [] db = db"
  by (simp add: batch_done_def)

lemma batch_done_Cons:
  "batch_done hostId (e # es) db = batch_done hostId es (insert_row hostId e db)"
  by (simp add: batch_done_def insert_row_def)

lemma run_inserts_None: "run_inserts None i hostId entries db = Inr (batch_done hostId entries db)"
  by (induction entries arbitrary: i db) (simp_all add: batch_done_Nil batch_done_Cons)

lemma run_inserts_Some:
  "run_inserts (Some k) i hostId entries db =
     (if i \<le> k \<and> k < i + length entries then Inl StorageFailure
      else Inr (batch_done hostId entries db))"
proof (induction entries arbitrary: i db)
  case Nil
  then show ?case by (simp add: batch_done_Nil)
next
  case (Cons e es)
  show ?case
  proof (cases "k = i")
    case True
    then show ?thesis by simp
  next
    case False
    then have "(i \<le> k \<and> k < i + length (e # es)) \<longleftrightarrow> (Suc i \<le> k \<and> k < Suc i + length es)"
      by auto
    with False show ?thesis by (simp add: Cons.IH batch_done_Cons)
  qed
qed

lemma run_inserts_result:
  "run_inserts fault 0 hostId entries db =
     (if \<exists>k. fault = Some k \<and> k < length entries then Inl StorageFailure
      else Inr (batch_done hostId entries db))"
  by (cases fault) (simp_all add: run_inserts_None run_inserts_Some)

lemma length_rows_of_batch: "length (rows_of_batch seq hostId entries) = length entries"
  by (induction entries arbitrary: seq) auto

lemma entry_of_make_row: "entry_of_row (make_row k hostId e) = stored_entry e"
  by (simp add: entry_of_row_def make_row_def stored_entry_def)

lemma entries_of_rows_of_batch:
  "map entry_of_row (rows_of_batch seq hostId entries) = map stored_entry entries"
  by (induction entries arbitrary: seq) (auto simp: entry_of_make_row)

lemma insertLogEntries_result:
  "insertLogEntries fault now entries name db =
     (if \<exists>k. fault = Some k \<and> k < length entries
      then (Inl StorageFailure, snd (getOrCreateHost now name db))
      else (Inr (), batch_done (fst (getOrCreateHost now name db)) entries
                      (snd (getOrCreateHost now name db))))"
  by (cases "getOrCreateHost now name db")
     (simp add: insertLogEntries_def transaction_def run_inserts_result)

text \<open>
  C2, as the code has it. The inserts of one load form one transaction: either every
  parsed entry of the load becomes a row, in order and as stored, or, when the storage
  engine fails at one of the inserts, none does and the entries table and its key
  counter are as before the load. The host row is resolved or created before the transaction and outside it, so
  after a failed batch the store is the one \<open>getOrCreateHost\<close> left: the hosts table holds
  the new host row, or the refreshed \<open>updated_at\<close> of the existing one.
\<close>

theorem insertLogEntries_atomic:
  "insertLogEntries fault now entries name db =
     (if \<exists>k. fault = Some k \<and> k < length entries
      then (Inl StorageFailure, snd (getOrCreateHost now name db))
      else (Inr (),
            (snd (getOrCreateHost now name db))
              \<lparr>log_entries := log_entries db
                  @ rows_of_batch (log_entries_seq db) (fst (getOrCreateHost now name db)) entries,
               log_entries_seq := log_entries_seq db + int (length entries)\<rparr>))
   \<and> log_entries (snd (getOrCreateHost now name db)) = log_entries db
   \<and> log_entries_seq (snd (getOrCreateHost now name db)) = log_entries_seq db
   \<and> map entry_of_row
        (rows_of_batch (log_entries_seq db) (fst (getOrCreateHost now name db)) entries)
       = map stored_entry entries"
  by (simp add: insertLogEntries_result batch_done_def getOrCreateHost_entries
        entries_of_rows_of_batch)

theorem insertLogEntries_atomic_witness:
  "insertLogEntries (Some 1) 1000
      [sample_entry 0 ''Zapier'' 200, sample_entry 1 ''Mozilla/5.0'' 404]
      ''example.com'' initializeDatabase
     = (Inl StorageFailure, snd (getOrCreateHost 1000 ''example.com'' initializeDatabase))
   \<and> log_entries (snd (getOrCreateHost 1000 ''example.com'' initializeDatabase))
       = log_entries initializeDatabase
   \<and> fst (insertLogEntries None 1000
        [sample_entry 0 ''Zapier'' 200, sample_entry 1 ''Mozilla/5.0'' 404]
        ''example.com'' initializeDatabase) = Inr ()"
  using insertLogEntries_atomic [of "Some 1" 1000
          "[sample_entry 0 ''Zapier'' 200, sample_entry 1 ''Mozilla/5.0'' 404]"
          "''example.com''" initializeDatabase]
        insertLogEntries_atomic [of None 1000
          "[sample_entry 0 ''Zapier'' 200, sample_entry 1 ''Mozilla/5.0'' 404]"
          "''example.com''" initializeDatabase]
  by simp

text \<open>
  C2, as the specification states it, fails: a load of the two-line sample file into a fresh store
  whose second insert fails ends with the storage failure and with a host row in the hosts
  table, which was empty before.
\<close>

theorem loadLogFile_failed_batch_counterexample:
  "fst (loadLogFile sample_fs utc_zone (Some 1) 1000 ''access.log'' ''example.com''
          initializeDatabase) = Inl StorageFailure
   \<and> hosts initializeDatabase = []
   \<and> map hostname (hosts (snd (loadLogFile sample_fs utc_zone (Some 1) 1000 ''access.log''
          ''example.com'' initializeDatabase))) = [''example.com'']
   \<and> log_entries (snd (loadLogFile sample_fs utc_zone (Some 1) 1000 ''access.log''
          ''example.com'' initializeDatabase)) = []"
  unfolding load_sample by code_simp

section \<open>Invariants of the reachable stores\<close>

lemma hosts_ok_cong:
  "hosts db' = hosts db \<Longrightarrow> hosts_seq db' = hosts_seq db \<Longrightarrow> hosts_ok db' = hosts_ok db"
  by (simp add: hosts_ok_def)

lemma hosts_ok_maps:
  assumes "map hostname (hosts db') = map hostname (hosts db)"
      and "map host_row_id (hosts db') = map host_row_id (hosts db)"
      and "hosts_seq db' = hosts_seq db"
  shows "hosts_ok db' = hosts_ok db"
proof -
  have "list_all (\<lambda>h. host_row_id h \<le> s) hs = list_all (\<lambda>i. i \<le> s) (map host_row_id hs)"
    for s and hs :: "host_row list"
    by (induction hs) auto
  with assms show ?thesis by (simp add: hosts_ok_def)
qed

lemma hostname_touch:
  "map (hostname \<circ> (\<lambda>h. if p h then h\<lparr>updated_at := now\<rparr> else h)) hs = map hostname hs"
  "map (host_row_id \<circ> (\<lambda>h. if p h then h\<lparr>updated_at := now\<rparr> else h)) hs
     = map host_row_id hs"
  by (induction hs) auto

lemma getOrCreateHost_existing_hosts:
  "filter (\<lambda>h. hostname h = name) (hosts db) = e # others \<Longrightarrow>
     snd (getOrCreateHost now name db) =
       db\<lparr>hosts := map (\<lambda>h. if host_row_id h = host_row_id e then h\<lparr>updated_at := now\<rparr> else h)
                       (hosts db)\<rparr>"
  by (simp add: getOrCreateHost_def)

lemma getOrCreateHost_hosts_ok:
  assumes "hosts_ok db"
  shows "hosts_ok (snd (getOrCreateHost now name db))"
proof (cases "filter (\<lambda>h. hostname h = name) (hosts db)")
  case Nil
  then have fresh: "name \<notin> hostname ` set (hosts db)"
    by (auto simp: filter_empty_conv)
  from assms have "\<forall>h \<in> set (hosts db). host_row_id h \<le> hosts_seq db"
    by (simp add: hosts_ok_def list_all_iff)
  then have "hosts_seq db + 1 \<notin> host_row_id ` set (hosts db)" by force
  with assms fresh Nil show ?thesis
    by (auto simp: hosts_ok_def getOrCreateHost_def list_all_iff)
next
  case (Cons e others)
  have "hosts_ok (snd (getOrCreateHost now name db)) = hosts_ok db"
    unfolding getOrCreateHost_existing_hosts [OF Cons]
    by (rule hosts_ok_maps) (simp_all add: hostname_touch)
  with assms show ?thesis by simp
qed

lemma insert_row_hosts:
  "hosts (insert_row hostId e db) = hosts db" "hosts_seq (insert_row hostId e db) = hosts_seq db"
  by (simp_all add: insert_row_def)

lemma batch_done_hosts:
  "hosts (batch_done hostId es db) = hosts db" "hosts_seq (batch_done hostId es db) = hosts_seq db"
  by (simp_all add: batch_done_def)

lemma insertLogEntries_hosts:
  "hosts (snd (insertLogEntries fault now entries name db)) = hosts (snd (getOrCreateHost now name db))"
  "hosts_seq (snd (insertLogEntries fault now entries name db)) = hosts_seq (snd (getOrCreateHost now name db))"
  by (simp_all add: insertLogEntries_result batch_done_hosts)

lemma reachable_hosts_ok: "reachable db \<Longrightarrow> hosts_ok db"
proof (induction rule: reachable.induct)
  case reachable_init
  show ?case by (simp add: hosts_ok_def initializeDatabase_def)
next
  case (reachable_host db now name)
  from reachable_host.IH show ?case by (rule getOrCreateHost_hosts_ok)
next
  case (reachable_insert db now entry name)
  from reachable_insert.IH have "hosts_ok (snd (getOrCreateHost now name db))" by (rule getOrCreateHost_hosts_ok)
  then show ?case
    by (cases "getOrCreateHost now name db")
       (simp add: insertLogEntry_def hosts_ok_cong [OF insert_row_hosts])
next
  case (reachable_batch db fault now entries name)
  from reachable_batch.IH have "hosts_ok (snd (getOrCreateHost now name db))" by (rule getOrCreateHost_hosts_ok)
  then show ?case by (simp add: hosts_ok_cong [OF insertLogEntries_hosts])
next
  case (reachable_clear db)
  then show ?case by (simp add: hosts_ok_def clearAllData_def)
qed

lemma bots_ok_append:
  "bots_ok (db\<lparr>log_entries := log_entries db @ rs\<rparr>) \<longleftrightarrow>
     bots_ok db \<and> list_all (\<lambda>r. is_bot r = (if isBot (user_agent r) then 1 else 0)) rs"
  by (simp add: bots_ok_def)

lemma rows_of_batch_bots:
  "list_all (\<lambda>r. is_bot r = (if isBot (user_agent r) then 1 else 0)) (rows_of_batch seq hostId es)"
  by (induction es arbitrary: seq) (simp_all add: make_row_def)

lemma bots_ok_cong: "log_entries db' = log_entries db \<Longrightarrow> bots_ok db' = bots_ok db"
  by (simp add: bots_ok_def)

lemma batch_done_bots_ok: "bots_ok db \<Longrightarrow> bots_ok (batch_done hostId es db)"
  by (simp add: bots_ok_def batch_done_def rows_of_batch_bots)

lemma insert_row_bots_ok: "bots_ok db \<Longrightarrow> bots_ok (insert_row hostId e db)"
  by (simp add: bots_ok_def insert_row_def make_row_def)

lemma getOrCreateHost_bots_ok: "bots_ok db \<Longrightarrow> bots_ok (snd (getOrCreateHost now name db))"
  by (simp add: bots_ok_cong [OF getOrCreateHost_entries(1)])

lemma reachable_bots_ok: "reachable db \<Longrightarrow> bots_ok db"
proof (induction rule: reachable.induct)
  case reachable_init
  show ?case by (simp add: bots_ok_def initializeDatabase_def)
next
  case (reachable_host db now name)
  from reachable_host.IH show ?case by (rule getOrCreateHost_bots_ok)
next
  case (reachable_insert db now entry name)
  from reachable_insert.IH have "bots_ok (snd (getOrCreateHost now name db))" by (rule getOrCreateHost_bots_ok)
  then show ?case
    by (cases "getOrCreateHost now name db") (simp add: insertLogEntry_def insert_row_bots_ok)
next
  case (reachable_batch db fault now entries name)
  from reachable_batch.IH have "bots_ok (snd (getOrCreateHost now name db))" by (rule getOrCreateHost_bots_ok)
  then show ?case by (simp add: insertLogEntries_result batch_done_bots_ok)
next
  case (reachable_clear db)
  then show ?case by (simp add: bots_ok_def clearAllData_def)
qed

lemma reachable_loadLogFile:
  "reachable db \<Longrightarrow> reachable (snd (loadLogFile fs tz fault now filePath name db))"
  by (auto simp: loadLogFile_def Let_def reachable_batch split: option.splits)

section \<open>Properties of host tracking\<close>

lemma filter_distinct_key:
  "distinct (map f xs) \<Longrightarrow> filter (\<lambda>x. f x = a) xs = e # others \<Longrightarrow> others = []"
proof (induction xs arbitrary: e others)
  case Nil
  then show ?case by simp
next
  case (Cons x xs)
  show ?case
  proof (cases "f x = a")
    case True
    from Cons.prems(1) have "f x \<notin> f ` set xs" by simp
    with True have "\<forall>y \<in> set xs. f y \<noteq> a" by (metis imageI)
    then have "filter (\<lambda>x. f x = a) xs = []"
      by (simp add: filter_empty_conv)
    with True Cons.prems(2) show ?thesis by simp
  next
    case False
    with Cons show ?thesis by simp
  qed
qed

lemma getOrCreateHost_new_row:
  assumes "host_rows name db = []"
  shows "host_rows name (snd (getOrCreateHost now name db)) =
           [\<lparr>host_row_id = hosts_seq db + 1, hostname = name, created_at = now, updated_at = now\<rparr>]"
  using assms by (simp add: host_rows_def getOrCreateHost_def)

lemma getOrCreateHost_touched_row:
  assumes ok: "hosts_ok db" and rows: "host_rows name db = e # others"
  shows "host_rows name (snd (getOrCreateHost now name db)) = [e\<lparr>updated_at := now\<rparr>]"
    and "map hostname (hosts (snd (getOrCreateHost now name db))) = map hostname (hosts db)"
proof -
  from rows have flt: "filter (\<lambda>h. hostname h = name) (hosts db) = e # others"
    by (simp add: host_rows_def)
  from ok have dn: "distinct (map hostname (hosts db))" and di: "distinct (map host_row_id (hosts db))"
    by (simp_all add: hosts_ok_def)
  from dn flt have others: "others = []" by (rule filter_distinct_key)
  have "e \<in> set (filter (\<lambda>h. hostname h = name) (hosts db))"
    by (simp add: flt)
  then have e_in: "e \<in> set (hosts db)" and e_name: "hostname e = name"
    by simp_all
  have same: "host_row_id h = host_row_id e \<longleftrightarrow> hostname h = name" if "h \<in> set (hosts db)" for h
    using that e_in e_name dn di by (metis distinct_map inj_on_def)
  let ?touch = "\<lambda>h. if host_row_id h = host_row_id e then h\<lparr>updated_at := now\<rparr> else h"
  have hosts': "hosts (snd (getOrCreateHost now name db)) = map ?touch (hosts db)"
    by (simp add: getOrCreateHost_existing_hosts [OF flt])
  have "filter (\<lambda>h. hostname h = name) (map ?touch (hosts db))
          = map ?touch (filter (\<lambda>h. hostname h = name) (hosts db))"
    by (simp add: filter_map comp_def if_distrib [of hostname] cong: if_cong)
  also have "\<dots> = [e\<lparr>updated_at := now\<rparr>]"
    by (simp add: flt others)
  finally show "host_rows name (snd (getOrCreateHost now name db)) = [e\<lparr>updated_at := now\<rparr>]"
    by (simp add: host_rows_def hosts')
  show "map hostname (hosts (snd (getOrCreateHost now name db))) = map hostname (hosts db)"
    by (simp add: hosts' hostname_touch)
qed

lemma getOrCreateHost_row:
  assumes "hosts_ok db"
  shows "\<exists>r. host_rows name (snd (getOrCreateHost now name db)) = [r] \<and> updated_at r = now"
proof (cases "host_rows name db")
  case Nil
  then show ?thesis by (simp add: getOrCreateHost_new_row)
next
  case (Cons e others)
  with assms show ?thesis by (simp add: getOrCreateHost_touched_row(1))
qed

lemma loadLogFile_success:
  assumes "loadLogFile fs tz fault now filePath name db = (Inr (), db')"
  shows "hosts db' = hosts (snd (getOrCreateHost now name db))"
    and "hosts_seq db' = hosts_seq (snd (getOrCreateHost now name db))"
proof -
  from assms have "db' = snd (insertLogEntries fault now (parseLogFile tz (the (fs filePath))) name db)"
    by (auto simp: loadLogFile_def Let_def split: option.splits if_splits)
  then show "hosts db' = hosts (snd (getOrCreateHost now name db))"
    and "hosts_seq db' = hosts_seq (snd (getOrCreateHost now name db))"
    by (simp_all add: insertLogEntries_hosts)
qed

lemma host_rows_cong: "hosts db' = hosts db \<Longrightarrow> host_rows name db' = host_rows name db"
  by (simp add: host_rows_def)

text \<open>
  C9, as the code has it. After two successful loads for the same hostname, at the clock
  readings \<open>t1\<close> and \<open>t2\<close>, the hosts table has exactly one row for the hostname, before
  and after the second load; the second load keeps its key and its creation instant and
  sets \<open>updated_at\<close> to \<open>t2\<close>, where the first load had left \<open>t1\<close>. No host row is added
  and hostnames stay unique. The new \<open>updated_at\<close> is strictly later when the clock has
  advanced between the two loads, \<open>t1 < t2\<close>.
\<close>

theorem reload_same_host:
  assumes reach: "reachable db0"
      and load1: "loadLogFile fs1 tz1 fault1 t1 path1 name db0 = (Inr (), db1)"
      and load2: "loadLogFile fs2 tz2 fault2 t2 path2 name db1 = (Inr (), db2)"
  shows "\<exists>r1 r2. host_rows name db1 = [r1] \<and> host_rows name db2 = [r2]
           \<and> updated_at r1 = t1 \<and> updated_at r2 = t2
           \<and> host_row_id r2 = host_row_id r1 \<and> created_at r2 = created_at r1
           \<and> map hostname (hosts db2) = map hostname (hosts db1)
           \<and> distinct (map hostname (hosts db2))
           \<and> (t1 < t2 \<longrightarrow> updated_at r1 < updated_at r2)"
proof -
  let ?d1 = "snd (getOrCreateHost t1 name db0)"
  let ?d2 = "snd (getOrCreateHost t2 name db1)"
  from reach have ok0: "hosts_ok db0" by (rule reachable_hosts_ok)
  then have "hosts_ok ?d1" by (rule getOrCreateHost_hosts_ok)
  then have ok1: "hosts_ok db1"
    by (simp add: hosts_ok_cong [OF loadLogFile_success [OF load1]])
  from getOrCreateHost_row [OF ok0, of name t1]
  obtain r1 where r1: "host_rows name ?d1 = [r1]" and u1: "updated_at r1 = t1" by blast
  from r1 have rows1: "host_rows name db1 = [r1]"
    by (simp add: host_rows_cong [OF loadLogFile_success(1) [OF load1]])
  have rows2: "host_rows name db2 = [r1\<lparr>updated_at := t2\<rparr>]"
    using getOrCreateHost_touched_row(1) [OF ok1 rows1, of t2]
    by (simp add: host_rows_cong [OF loadLogFile_success(1) [OF load2]])
  have names: "map hostname (hosts db2) = map hostname (hosts db1)"
    using getOrCreateHost_touched_row(2) [OF ok1 rows1, of t2]
    by (simp add: loadLogFile_success(1) [OF load2])
  from ok1 have "distinct (map hostname (hosts db1))" by (simp add: hosts_ok_def)
  with names have dist: "distinct (map hostname (hosts db2))" by simp
  from rows1 rows2 u1 names dist show ?thesis by simp
qed

theorem reload_same_host_witness:
  "reachable initializeDatabase
   \<and> loadLogFile sample_fs utc_zone None 1000 ''access.log'' ''example.com'' initializeDatabase
       = (Inr (), loaded_once)
   \<and> loadLogFile sample_fs utc_zone None 1010 ''access.log'' ''example.com'' loaded_once
       = (Inr (), loaded_twice 1010)
   \<and> (\<exists>r1 r2. host_rows ''example.com'' loaded_once = [r1]
         \<and> host_rows ''example.com'' (loaded_twice 1010) = [r2]
         \<and> updated_at r1 = 1000 \<and> updated_at r2 = 1010 \<and> updated_at r1 < updated_at r2
         \<and> distinct (map hostname (hosts (loaded_twice 1010))))"
proof -
  have l1: "fst (loadLogFile sample_fs utc_zone None 1000 ''access.log'' ''example.com''
                   initializeDatabase) = Inr ()"
    by (simp add: load_sample insertLogEntries_result)
  have l2: "fst (loadLogFile sample_fs utc_zone None 1010 ''access.log'' ''example.com''
                   loaded_once) = Inr ()"
    by (simp add: load_sample insertLogEntries_result)
  from l1 have load1:
    "loadLogFile sample_fs utc_zone None 1000 ''access.log'' ''example.com'' initializeDatabase
       = (Inr (), loaded_once)"
    by (simp add: loaded_once_def prod_eq_iff)
  from l2 have load2:
    "loadLogFile sample_fs utc_zone None 1010 ''access.log'' ''example.com'' loaded_once
       = (Inr (), loaded_twice 1010)"
    by (simp add: loaded_twice_def prod_eq_iff)
  from reload_same_host [OF reachable_init load1 load2] reachable_init load1 load2
  show ?thesis by auto
qed

text \<open>
  C9, as the specification states it, fails: the clock counts whole milliseconds, and two loads that
  read the same millisecond leave \<open>updated_at\<close> equal, not strictly later.
\<close>

theorem reload_same_millisecond_counterexample:
  "fst (loadLogFile sample_fs utc_zone None 1000 ''access.log'' ''example.com''
          initializeDatabase) = Inr ()
   \<and> fst (loadLogFile sample_fs utc_zone None 1000 ''access.log'' ''example.com''
          loaded_once) = Inr ()
   \<and> map updated_at (getAllHosts loaded_once) = [1000]
   \<and> map updated_at (getAllHosts (loaded_twice 1000)) = [1000]"
  unfolding loaded_twice_def loaded_once_def load_sample by code_simp

section \<open>Properties of the windowed reports\<close>

lemma in_sql_limit: "x \<in> set (sql_limit n xs) \<Longrightarrow> x \<in> set xs"
  by (auto simp: sql_limit_def dest: in_set_takeD split: if_splits)

lemma set_order_desc: "set (order_desc f xs) = set xs"
  by (simp add: order_desc_def)

lemma in_group_by:
  "(k, g) \<in> set (group_by key rows) \<Longrightarrow> g = filter (\<lambda>r. key r = k) rows"
  by (auto simp: group_by_def)

lemma in_report:
  assumes "x \<in> set (sql_limit n (order_desc f (map mk (group_by key rows))))"
  obtains k where "x = mk (k, filter (\<lambda>r. key r = k) rows)"
proof -
  from assms have "x \<in> set (map mk (group_by key rows))"
    by (auto dest: in_sql_limit simp: set_order_desc)
  then obtain k g where "(k, g) \<in> set (group_by key rows)" and "x = mk (k, g)"
    by auto
  then have "x = mk (k, filter (\<lambda>r. key r = k) rows)" by (auto dest: in_group_by)
  then show thesis by (rule that)
qed

lemma count_where_mono:
  "(\<And>r. p r \<Longrightarrow> q r) \<Longrightarrow> count_where p rows \<le> count_where q rows"
  unfolding count_where_def by (induction rows) (auto simp: add_mono)

lemma count_distinct_ip_mono:
  assumes "\<And>r. p r \<Longrightarrow> q r"
  shows "count_distinct_ip p rows \<le> count_distinct_ip q rows"
proof -
  have "set (map col_ip (filter p rows)) \<subseteq> set (map col_ip (filter q rows))"
    using assms by auto
  then have "card (set (map col_ip (filter p rows))) \<le> card (set (map col_ip (filter q rows)))"
    by (intro card_mono) simp_all
  then show ?thesis
    by (simp add: count_distinct_ip_def length_remdups_card_conv)
qed

lemma count_where_split:
  assumes "list_all (\<lambda>r. is_bot r = 0 \<or> is_bot r = 1) rows"
  shows "count_where p rows =
           count_where (\<lambda>r. p r \<and> is_bot r = 1) rows + count_where (\<lambda>r. p r \<and> is_bot r = 0) rows"
  using assms unfolding count_where_def by (induction rows) auto

lemma subDays_nested:
  assumes "valid_zone tz"
  shows "subDays tz now 30 \<le> subDays tz now 7" and "subDays tz now 7 \<le> subDays tz now 1"
proof -
  let ?l = "LocalTime tz now"
  have b: "abs (tza_local tz t) \<le> 86400000" for t
    using assms by (simp add: valid_zone_def msPerDay_def)
  from b [of "?l - 30 * 86400000"] b [of "?l - 7 * 86400000"] b [of "?l - 86400000"]
  show "subDays tz now 30 \<le> subDays tz now 7" and "subDays tz now 7 \<le> subDays tz now 1"
    by (simp_all add: subDays_def UTC_def msPerDay_def)
qed

lemma fixed_zone_valid: "abs c \<le> msPerDay \<Longrightarrow> valid_zone (fixed_zone c)"
  by (simp add: valid_zone_def fixed_zone_def)

lemma subDays_fixed_zone: "subDays (fixed_zone c) now n = now - n * msPerDay"
  by (simp add: subDays_def UTC_def LocalTime_def fixed_zone_def)

lemma bots_ok_flags:
  assumes "bots_ok db"
  shows "list_all (\<lambda>r. is_bot r = 0 \<or> is_bot r = 1) (filter p (log_entries db))"
  using assms by (auto simp: bots_ok_def list_all_iff)

text \<open>
  C6. For every row that the page stats query returns over a store the program has built,
  and for each of the three windows, the number of requests is the number of bot requests
  plus the number of non-bot requests.
\<close>

theorem page_stats_bot_split:
  assumes "reachable db"
  shows "\<forall>row \<in> set (getPageStats tz now limit db).
           pg_requests1d row = pg_botRequests1d row + pg_nonBotRequests1d row
           \<and> pg_requests7d row = pg_botRequests7d row + pg_nonBotRequests7d row
           \<and> pg_requests30d row = pg_botRequests30d row + pg_nonBotRequests30d row"
proof
  fix row
  assume "row \<in> set (getPageStats tz now limit db)"
  then obtain k where row:
    "row = (\<lambda>(k, g).
        \<lparr>pg_url = k,
         pg_requests1d = count_where (\<lambda>r. col_timestamp r \<ge> subDays tz now 1) g,
         pg_requests7d = count_where (\<lambda>r. col_timestamp r \<ge> subDays tz now 7) g,
         pg_requests30d = count_where (\<lambda>r. col_timestamp r \<ge> subDays tz now 30) g,
         pg_uniqueIPs1d = count_distinct_ip (\<lambda>r. col_timestamp r \<ge> subDays tz now 1) g,
         pg_uniqueIPs7d = count_distinct_ip (\<lambda>r. col_timestamp r \<ge> subDays tz now 7) g,
         pg_uniqueIPs30d = count_distinct_ip (\<lambda>r. col_timestamp r \<ge> subDays tz now 30) g,
         pg_botRequests1d = count_where (\<lambda>r. col_timestamp r \<ge> subDays tz now 1 \<and> is_bot r = 1) g,
         pg_botRequests7d = count_where (\<lambda>r. col_timestamp r \<ge> subDays tz now 7 \<and> is_bot r = 1) g,
         pg_botRequests30d = count_where (\<lambda>r. col_timestamp r \<ge> subDays tz now 30 \<and> is_bot r = 1) g,
         pg_nonBotRequests1d = count_where (\<lambda>r. col_timestamp r \<ge> subDays tz now 1 \<and> is_bot r = 0) g,
         pg_nonBotRequests7d = count_where (\<lambda>r. col_timestamp r \<ge> subDays tz now 7 \<and> is_bot r = 0) g,
         pg_nonBotRequests30d = count_where (\<lambda>r. col_timestamp r \<ge> subDays tz now 30 \<and> is_bot r = 0) g\<rparr>)
      (k, filter (\<lambda>r. col_url r = k) (log_entries db))"
    unfolding getPageStats_def Let_def by (rule in_report)
  from assms have ok: "bots_ok db" by (rule reachable_bots_ok)
  note split = count_where_split [OF bots_ok_flags [OF ok, of "\<lambda>r. col_url r = k"]]
  show "pg_requests1d row = pg_botRequests1d row + pg_nonBotRequests1d row
        \<and> pg_requests7d row = pg_botRequests7d row + pg_nonBotRequests7d row
        \<and> pg_requests30d row = pg_botRequests30d row + pg_nonBotRequests30d row"
    unfolding row by (simp add: split [symmetric])
qed

theorem page_stats_bot_split_witness:
  "reachable two_agents_db
   \<and> map pg_requests7d (getPageStats utc_zone sample_now 50 two_agents_db) = [2]
   \<and> map pg_botRequests7d (getPageStats utc_zone sample_now 50 two_agents_db) = [1]
   \<and> list_all
         (\<lambda>row. pg_requests1d row = pg_botRequests1d row + pg_nonBotRequests1d row
           \<and> pg_requests7d row = pg_botRequests7d row + pg_nonBotRequests7d row
           \<and> pg_requests30d row = pg_botRequests30d row + pg_nonBotRequests30d row)
         (getPageStats utc_zone sample_now 50 two_agents_db)"
proof -
  have r: "reachable two_agents_db"
    unfolding two_agents_db_def by (intro reachable_batch reachable_init)
  have a: "map pg_requests7d (getPageStats utc_zone sample_now 50 two_agents_db) = [2]"
    by code_simp
  have b: "map pg_botRequests7d (getPageStats utc_zone sample_now 50 two_agents_db) = [1]"
    by code_simp
  from r a b page_stats_bot_split [OF r, of utc_zone sample_now 50] show ?thesis
    by (simp add: list_all_iff)
qed

text \<open>
  C7. For every row of every windowed report (user agents, pages, referrers, errors, top
  IPs) the 1-day count is at most the 7-day count, which is at most the 30-day count: the
  windows \<open>timestamp \<ge> now - N days\<close> are nested, in every time zone of the host whose
  offsets stay within a day. For pages this holds for the request counts, the counts of
  distinct addresses and the bot and non-bot counts.
\<close>

theorem windows_nested:
  assumes "valid_zone tz"
  shows "(\<forall>row \<in> set (getUserAgentStats tz now limit db).
            ua_requests1d row \<le> ua_requests7d row \<and> ua_requests7d row \<le> ua_requests30d row)
       \<and> (\<forall>row \<in> set (getPageStats tz now limit db).
            pg_requests1d row \<le> pg_requests7d row \<and> pg_requests7d row \<le> pg_requests30d row
            \<and> pg_uniqueIPs1d row \<le> pg_uniqueIPs7d row \<and> pg_uniqueIPs7d row \<le> pg_uniqueIPs30d row
            \<and> pg_botRequests1d row \<le> pg_botRequests7d row
            \<and> pg_botRequests7d row \<le> pg_botRequests30d row
            \<and> pg_nonBotRequests1d row \<le> pg_nonBotRequests7d row
            \<and> pg_nonBotRequests7d row \<le> pg_nonBotRequests30d row)
       \<and> (\<forall>row \<in> set (getReferrerStats tz now limit db).
            ref_requests1d row \<le> ref_requests7d row \<and> ref_requests7d row \<le> ref_requests30d row)
       \<and> (\<forall>row \<in> set (getErrorStats tz now limit db).
            err_requests1d row \<le> err_requests7d row \<and> err_requests7d row \<le> err_requests30d row)
       \<and> (\<forall>row \<in> set (getTopIPs tz now limit db).
            ip_requests1d row \<le> ip_requests7d row \<and> ip_requests7d row \<le> ip_requests30d row)"
proof -
  note n = subDays_nested [OF assms, of now]
  have w17: "count_where (\<lambda>r. col_timestamp r \<ge> subDays tz now 1) g
               \<le> count_where (\<lambda>r. col_timestamp r \<ge> subDays tz now 7) g" for g
    using n(2) by (intro count_where_mono) simp
  have w730: "count_where (\<lambda>r. col_timestamp r \<ge> subDays tz now 7) g
               \<le> count_where (\<lambda>r. col_timestamp r \<ge> subDays tz now 30) g" for g
    using n(1) by (intro count_where_mono) simp
  have b17: "count_where (\<lambda>r. col_timestamp r \<ge> subDays tz now 1 \<and> is_bot r = b) g
               \<le> count_where (\<lambda>r. col_timestamp r \<ge> subDays tz now 7 \<and> is_bot r = b) g" for g b
    using n(2) by (intro count_where_mono) simp
  have b730: "count_where (\<lambda>r. col_timestamp r \<ge> subDays tz now 7 \<and> is_bot r = b) g
               \<le> count_where (\<lambda>r. col_timestamp r \<ge> subDays tz now 30 \<and> is_bot r = b) g" for g b
    using n(1) by (intro count_where_mono) simp
  have u17: "count_distinct_ip (\<lambda>r. col_timestamp r \<ge> subDays tz now 1) g
               \<le> count_distinct_ip (\<lambda>r. col_timestamp r \<ge> subDays tz now 7) g" for g
    using n(2) by (intro count_distinct_ip_mono) simp
  have u730: "count_distinct_ip (\<lambda>r. col_timestamp r \<ge> subDays tz now 7) g
               \<le> count_distinct_ip (\<lambda>r. col_timestamp r \<ge> subDays tz now 30) g" for g
    using n(1) by (intro count_distinct_ip_mono) simp
  have ua: "ua_requests1d row \<le> ua_requests7d row \<and> ua_requests7d row \<le> ua_requests30d row"
    if "row \<in> set (getUserAgentStats tz now limit db)" for row
    using that unfolding getUserAgentStats_def Let_def
    by (rule in_report) (simp add: w17 w730)
  have pg: "pg_requests1d row \<le> pg_requests7d row \<and> pg_requests7d row \<le> pg_requests30d row
            \<and> pg_uniqueIPs1d row \<le> pg_uniqueIPs7d row \<and> pg_uniqueIPs7d row \<le> pg_uniqueIPs30d row
            \<and> pg_botRequests1d row \<le> pg_botRequests7d row
            \<and> pg_botRequests7d row \<le> pg_botRequests30d row
            \<and> pg_nonBotRequests1d row \<le> pg_nonBotRequests7d row
            \<and> pg_nonBotRequests7d row \<le> pg_nonBotRequests30d row"
    if "row \<in> set (getPageStats tz now limit db)" for row
    using that unfolding getPageStats_def Let_def
    by (rule in_report) (simp add: w17 w730 b17 b730 u17 u730)
  have rf: "ref_requests1d row \<le> ref_requests7d row \<and> ref_requests7d row \<le> ref_requests30d row"
    if "row \<in> set (getReferrerStats tz now limit db)" for row
    using that unfolding getReferrerStats_def Let_def
    by (rule in_report) (simp add: w17 w730)
  have er: "err_requests1d row \<le> err_requests7d row \<and> err_requests7d row \<le> err_requests30d row"
    if "row \<in> set (getErrorStats tz now limit db)" for row
    using that unfolding getErrorStats_def Let_def
    by (rule in_report) (simp add: w17 w730)
  have tp: "ip_requests1d row \<le> ip_requests7d row \<and> ip_requests7d row \<le> ip_requests30d row"
    if "row \<in> set (getTopIPs tz now limit db)" for row
    using that unfolding getTopIPs_def Let_def
    by (rule in_report) (simp add: w17 w730)
  from ua pg rf er tp show ?thesis by blast
qed

theorem windows_nested_witness:
  "valid_zone utc_zone
   \<and> map ua_requests1d (getUserAgentStats utc_zone sample_now 50 two_agents_db) = [0, 0]
   \<and> map ua_requests7d (getUserAgentStats utc_zone sample_now 50 two_agents_db) = [1, 1]
   \<and> list_all
         (\<lambda>row. ua_requests1d row \<le> ua_requests7d row \<and> ua_requests7d row \<le> ua_requests30d row)
         (getUserAgentStats utc_zone sample_now 50 two_agents_db)
   \<and> list_all
         (\<lambda>row. ip_requests1d row \<le> ip_requests7d row \<and> ip_requests7d row \<le> ip_requests30d row)
         (getTopIPs utc_zone sample_now 50 two_agents_db)"
proof -
  have v: "valid_zone utc_zone"
    unfolding utc_zone_def by (rule fixed_zone_valid) (simp add: msPerDay_def)
  have a: "map ua_requests1d (getUserAgentStats utc_zone sample_now 50 two_agents_db) = [0, 0]"
    by code_simp
  have b: "map ua_requests7d (getUserAgentStats utc_zone sample_now 50 two_agents_db) = [1, 1]"
    by code_simp
  from v a b windows_nested [OF v, of sample_now 50 two_agents_db] show ?thesis
    by (simp add: list_all_iff)
qed

section \<open>Properties of the sums across reports\<close>

lemma sql_limit_all: "n < 0 \<or> int (length xs) \<le> n \<Longrightarrow> sql_limit n xs = xs"
  by (auto simp: sql_limit_def)

lemma sum_list_insort_key:
  fixes f :: "'a \<Rightarrow> int"
  shows "sum_list (map f (insort_key k x xs)) = f x + sum_list (map f xs)"
  by (induction xs) auto

lemma sum_list_sort_key:
  fixes f :: "'a \<Rightarrow> int"
  shows "sum_list (map f (sort_key k xs)) = sum_list (map f xs)"
  by (induction xs) (simp_all add: sum_list_insort_key)

lemma sum_list_order_desc:
  fixes f :: "'a \<Rightarrow> int"
  shows "sum_list (map f (order_desc g xs)) = sum_list (map f xs)"
  by (simp add: order_desc_def sum_list_sort_key)

lemma sum_list_indicator_absent:
  "k \<notin> set ks \<Longrightarrow> (\<Sum>k'\<leftarrow>ks. if k = k' then v else 0) = (0::int)"
  by (induction ks) auto

lemma sum_list_indicator:
  "distinct ks \<Longrightarrow> k \<in> set ks \<Longrightarrow> (\<Sum>k'\<leftarrow>ks. if k = k' then v else 0) = (v::int)"
  by (induction ks) (auto simp: sum_list_indicator_absent)

lemma sum_list_groups:
  fixes f :: "'r \<Rightarrow> int"
  assumes "distinct ks" and "key ` set rows \<subseteq> set ks"
  shows "(\<Sum>k\<leftarrow>ks. sum_list (map f (filter (\<lambda>r. key r = k) rows))) = sum_list (map f rows)"
  using assms(2)
proof (induction rows)
  case Nil
  then show ?case by (simp add: sum_list_0)
next
  case (Cons r rows)
  then have IH: "(\<Sum>k\<leftarrow>ks. sum_list (map f (filter (\<lambda>r. key r = k) rows))) = sum_list (map f rows)"
    and mem: "key r \<in> set ks" by auto
  have "(\<Sum>k\<leftarrow>ks. sum_list (map f (filter (\<lambda>r. key r = k) (r # rows))))
        = (\<Sum>k\<leftarrow>ks. (if key r = k then f r else 0) + sum_list (map f (filter (\<lambda>r. key r = k) rows)))"
    by (intro arg_cong [where f = sum_list] map_cong) auto
  also have "\<dots> = (\<Sum>k\<leftarrow>ks. if key r = k then f r else 0)
                  + (\<Sum>k\<leftarrow>ks. sum_list (map f (filter (\<lambda>r. key r = k) rows)))"
    by (simp add: sum_list_addf)
  also have "\<dots> = f r + sum_list (map f rows)"
    by (simp add: IH sum_list_indicator [OF assms(1) mem])
  finally show ?case by simp
qed

lemma sum_list_group_by:
  fixes f :: "'r \<Rightarrow> int"
  shows "(\<Sum>(k, g)\<leftarrow>group_by key rows. sum_list (map f g)) = sum_list (map f rows)"
proof -
  have "(\<Sum>(k, g)\<leftarrow>group_by key rows. sum_list (map f g))
        = (\<Sum>k\<leftarrow>remdups (map key rows). sum_list (map f (filter (\<lambda>r. key r = k) rows)))"
    by (simp add: group_by_def comp_def)
  also have "\<dots> = sum_list (map f rows)"
    by (rule sum_list_groups) simp_all
  finally show ?thesis .
qed

lemma length_group_by: "length (group_by key rows) = length (remdups (map key rows))"
  by (simp add: group_by_def)

lemma length_as_sum: "int (length xs) = (\<Sum>x\<leftarrow>xs. 1)"
  by (induction xs) auto

lemma count_where_all: "\<forall>r \<in> set rows. p r \<Longrightarrow> count_where p rows = int (length rows)"
  unfolding count_where_def by (induction rows) auto

lemma count_where_as_sum: "count_where p rows = sum_list (map (\<lambda>r. if p r then 1 else 0) rows)"
  by (simp add: count_where_def)

lemma total_requests: "totalRequests (calculateSummary db) = int (length (log_entries db))"
  by (simp add: calculateSummary_def getLogCount_def)

lemma user_agent_sum:
  assumes "limit < 0 \<or> int (length (remdups (map (\<lambda>r. (user_agent r, is_bot r)) (log_entries db)))) \<le> limit"
  shows "sum_list (map ua_requests30d (getUserAgentStats tz now limit db))
           = count_where (\<lambda>r. col_timestamp r \<ge> subDays tz now 30) (log_entries db)"
proof -
  let ?rows = "log_entries db"
  let ?key = "\<lambda>r. (user_agent r, is_bot r)"
  let ?p = "\<lambda>r. col_timestamp r \<ge> subDays tz now 30"
  have "sum_list (map ua_requests30d (getUserAgentStats tz now limit db))
          = (\<Sum>(k, g)\<leftarrow>group_by ?key ?rows. count_where ?p g)"
    unfolding getUserAgentStats_def Let_def
    by (subst sql_limit_all)
       (use assms in \<open>simp_all add: length_group_by order_desc_def sum_list_sort_key
          comp_def case_prod_unfold\<close>)
  also have "\<dots> = count_where ?p ?rows"
    unfolding count_where_as_sum by (rule sum_list_group_by)
  finally show ?thesis .
qed

lemma bandwidth_sum:
  assumes "length (remdups (map date_only (log_entries db))) \<le> 30"
  shows "sum_list (map bw_totalRequests (getBandwidthStats db)) = int (length (log_entries db))"
proof -
  have "sum_list (map bw_totalRequests (getBandwidthStats db))
          = (\<Sum>(k, g)\<leftarrow>group_by date_only (log_entries db). int (length g))"
    unfolding getBandwidthStats_def
    by (subst sql_limit_all)
       (use assms in \<open>simp_all add: length_group_by sum_list_sort_key rev_map [symmetric]
          comp_def case_prod_unfold\<close>)
  also have "\<dots> = (\<Sum>(k, g)\<leftarrow>group_by date_only (log_entries db). sum_list (map (\<lambda>r. 1) g))"
    by (simp add: length_as_sum)
  also have "\<dots> = sum_list (map (\<lambda>r. 1) (log_entries db))"
    by (rule sum_list_group_by)
  finally show ?thesis by (simp add: length_as_sum)
qed

lemma status_sum:
  assumes "length (remdups (map status_code (log_entries db))) \<le> 10"
  shows "sum_list (map count (topStatusCodes (calculateSummary db))) = int (length (log_entries db))"
proof -
  have "sum_list (map count (topStatusCodes (calculateSummary db)))
          = (\<Sum>(k, g)\<leftarrow>group_by status_code (log_entries db). int (length g))"
    unfolding calculateSummary_def
    by (simp, subst sql_limit_all)
       (use assms in \<open>simp_all add: length_group_by order_desc_def sum_list_sort_key
          comp_def case_prod_unfold\<close>)
  also have "\<dots> = (\<Sum>(k, g)\<leftarrow>group_by status_code (log_entries db). sum_list (map (\<lambda>r. 1) g))"
    by (simp add: length_as_sum)
  also have "\<dots> = sum_list (map (\<lambda>r. 1) (log_entries db))"
    by (rule sum_list_group_by)
  finally show ?thesis by (simp add: length_as_sum)
qed

text \<open>
  C4, as the code has it. When every stored entry lies in the 30-day window of the query
  time and the limit of the user-agent report is negative or at least the number of
  distinct pairs of user agent and bot flag, the 30-day counts of the rows of the
  user-agent report sum to \<open>totalRequests\<close> of the summary. When the stored entries fall on
  at most 30 distinct calendar days, the request counts of the rows of the per-day
  bandwidth report sum to \<open>totalRequests\<close> of the summary.
\<close>

theorem report_sums_reconcile:
  "((\<forall>r \<in> set (log_entries db). col_timestamp r \<ge> subDays tz now 30)
      \<and> (limit < 0 \<or> int (user_agent_groups db) \<le> limit)
     \<longrightarrow> sum_list (map ua_requests30d (getUserAgentStats tz now limit db))
           = totalRequests (calculateSummary db))
   \<and> (calendar_days db \<le> 30
     \<longrightarrow> sum_list (map bw_totalRequests (getBandwidthStats db))
           = totalRequests (calculateSummary db))"
  by (simp add: user_agent_sum bandwidth_sum count_where_all total_requests
        user_agent_groups_def calendar_days_def)

theorem report_sums_reconcile_witness:
  "list_all (\<lambda>r. col_timestamp r \<ge> subDays utc_zone sample_now 30) (log_entries two_agents_db)
   \<and> int (user_agent_groups two_agents_db) \<le> 50
   \<and> calendar_days two_agents_db \<le> 30
   \<and> sum_list (map ua_requests30d (getUserAgentStats utc_zone sample_now 50 two_agents_db)) = 2
   \<and> sum_list (map bw_totalRequests (getBandwidthStats two_agents_db)) = 2
   \<and> totalRequests (calculateSummary two_agents_db) = 2"
proof -
  have a: "list_all (\<lambda>r. col_timestamp r \<ge> subDays utc_zone sample_now 30)
             (log_entries two_agents_db)"
    by code_simp
  have b: "int (user_agent_groups two_agents_db) \<le> 50" by code_simp
  have c: "calendar_days two_agents_db \<le> 30" by code_simp
  have d: "totalRequests (calculateSummary two_agents_db) = 2" by code_simp
  from a b c d report_sums_reconcile [of two_agents_db utc_zone sample_now 50]
  show ?thesis by (simp add: list_all_iff)
qed

text \<open>
  C4, as the specification states it, fails three ways. Sixty days after two requests the 30-day
  counts sum to 0 while \<open>totalRequests\<close> is 2; with the limit 1 and two user agents the
  rows returned sum to 1; and with requests on 31 calendar days the per-day report
  returns 30 rows, whose request counts sum to 30 while \<open>totalRequests\<close> is 31.
\<close>

theorem report_sums_counterexample:
  "totalRequests (calculateSummary two_agents_db) = 2
   \<and> sum_list (map ua_requests30d (getUserAgentStats utc_zone late_now 50 two_agents_db)) = 0
   \<and> sum_list (map ua_requests30d (getUserAgentStats utc_zone sample_now 1 two_agents_db)) = 1
   \<and> totalRequests (calculateSummary month_db) = 31
   \<and> sum_list (map bw_totalRequests (getBandwidthStats month_db)) = 30"
  by code_simp

text \<open>
  C5, as the code has it. When the stored entries have at most ten distinct status codes,
  the counts in \<open>topStatusCodes\<close> of the summary sum to its \<open>totalRequests\<close>.
\<close>

theorem status_counts_sum:
  assumes "status_codes db \<le> 10"
  shows "sum_list (map count (topStatusCodes (calculateSummary db)))
           = totalRequests (calculateSummary db)"
  using assms by (simp add: status_sum total_requests status_codes_def)

theorem status_counts_sum_witness:
  "status_codes two_agents_db \<le> 10
   \<and> map count (topStatusCodes (calculateSummary two_agents_db)) = [1, 1]
   \<and> sum_list (map count (topStatusCodes (calculateSummary two_agents_db)))
       = totalRequests (calculateSummary two_agents_db)"
proof -
  have a: "status_codes two_agents_db \<le> 10" by code_simp
  have b: "map count (topStatusCodes (calculateSummary two_agents_db)) = [1, 1]" by code_simp
  from a b status_counts_sum [OF a] show ?thesis by simp
qed

text \<open>
  C5, as the specification states it, fails: with one request for each of eleven status codes,
  \<open>topStatusCodes\<close> holds ten of them and its counts sum to 10, while \<open>totalRequests\<close> is 11.
\<close>

theorem status_counts_counterexample:
  "totalRequests (calculateSummary codes_db) = 11
   \<and> sum_list (map count (topStatusCodes (calculateSummary codes_db))) = 10"
  by code_simp

end
